theory Spec2Isabelle
  imports Complex_Main "HOL-Library.Word"
begin

section \<open>Python values, exceptions and result dictionaries\<close>

text \<open>
  The service (\<^verbatim>\<open>smb_service.py\<close>) and the gateway (\<^verbatim>\<open>smb_api.py\<close>) exchange
  Python dictionaries.  A dictionary literal of the source is an association list in
  the order the source writes its keys; \<open>map_of\<close> looks a key up.  Logging calls
  (\<^verbatim>\<open>logger.info\<close>, \<^verbatim>\<open>logger.warning\<close>, \<^verbatim>\<open>logger.error\<close>) only write to the process
  log and are not part of the model.
\<close>

type_synonym bytes = "8 word list"

datatype pyval =
    PNone
  | PBool bool
  | PInt int
  | PFloat real
  | PStr string
  | PList "pyval list"
  | PDict "(string \<times> pyval) list"

type_synonym pydict = "(string \<times> pyval) list"

text \<open>
  An exception is its class and \<^verbatim>\<open>str(e)\<close>.  \<open>OtherException\<close> stands for every
  class the source does not name (the SMB client library's own errors among them).
\<close>

datatype exn_class =
    FileNotFoundError
  | FileExistsError
  | IsADirectoryError
  | NotADirectoryError
  | ValueError
  | TypeError
  | AttributeError
  | KeyError
  | OtherException

datatype exn = Exn exn_class string

fun str_exn :: "exn \<Rightarrow> string" where
  "str_exn (Exn c m) = m"

text \<open>\<^verbatim>\<open>s.lstrip('/')\<close>\<close>

definition lstrip_slash :: "string \<Rightarrow> string" where
  "lstrip_slash s = dropWhile (\<lambda>c. c = CHR ''/'') s"

section \<open>Paths and the file-system model\<close>

text \<open>
  \<^verbatim>\<open>pathlib.Path\<close> on a POSIX host: a path is its root (\<^verbatim>\<open>''\<close>, \<^verbatim>\<open>'/'\<close> or \<^verbatim>\<open>'//'\<close>; exactly
  two leading slashes are kept, any other number collapses to one) and its
  components, with empty and \<^verbatim>\<open>'.'\<close> components dropped.
\<close>

fun split_on :: "char \<Rightarrow> string \<Rightarrow> string list" where
  "split_on c [] = [[]]"
| "split_on c (x # xs) =
     (if x = c then [] # split_on c xs
      else (case split_on c xs of
              [] \<Rightarrow> [[x]]
            | h # t \<Rightarrow> (x # h) # t))"

fun join_with :: "string \<Rightarrow> string list \<Rightarrow> string" where
  "join_with sep [] = []"
| "join_with sep [x] = x"
| "join_with sep (x # y # ys) = x @ sep @ join_with sep (y # ys)"

record ppath =
  proot :: string
  parts :: "string list"

definition Path :: "string \<Rightarrow> ppath" where
  "Path s =
     (let n = length (takeWhile (\<lambda>c. c = CHR ''/'') s)
      in \<lparr> proot = (if n = 0 then [] else if n = 2 then ''//'' else ''/''),
           parts = filter (\<lambda>t. t \<noteq> [] \<and> t \<noteq> ''.'') (split_on CHR ''/'' s) \<rparr>)"

text \<open>\<^verbatim>\<open>str(path)\<close>\<close>

definition str_path :: "ppath \<Rightarrow> string" where
  "str_path P =
     (if proot P = [] \<and> parts P = [] then ''.''
      else proot P @ join_with ''/'' (parts P))"

text \<open>\<^verbatim>\<open>path.parent\<close>: a path without components is its own parent.\<close>

definition parent :: "ppath \<Rightarrow> ppath" where
  "parent P = (if parts P = [] then P else P\<lparr>parts := butlast (parts P)\<rparr>)"

text \<open>
  A file system is a finite table from paths (as \<open>str_path\<close> prints them) to nodes.
  The directories \<^verbatim>\<open>.\<close>, \<^verbatim>\<open>/\<close> and \<^verbatim>\<open>//\<close> always exist.  Symbolic links, \<^verbatim>\<open>..\<close>
  resolution and permissions are outside the model.
\<close>

datatype node = File bytes | Dir

type_synonym fs = "(string \<times> node) list"

fun fs_put :: "string \<Rightarrow> node \<Rightarrow> fs \<Rightarrow> fs" where
  "fs_put k v [] = [(k, v)]"
| "fs_put k v ((k', v') # r) =
     (if k' = k then (k, v) # r else (k', v') # fs_put k v r)"

definition fs_get :: "fs \<Rightarrow> string \<Rightarrow> node option" where
  "fs_get f s = (if s = ''.'' \<or> s = ''/'' \<or> s = ''//'' then Some Dir else map_of f s)"

text \<open>\<^verbatim>\<open>Path.exists()\<close>\<close>

definition path_exists :: "fs \<Rightarrow> ppath \<Rightarrow> bool" where
  "path_exists f P = (fs_get f (str_path P) \<noteq> None)"

definition quote :: "string \<Rightarrow> string" where
  "quote s = [CHR 0x27] @ s @ [CHR 0x27]"

text \<open>
  \<^verbatim>\<open>Path.mkdir(parents=True, exist_ok=True)\<close>: every missing directory of the chain is
  created, an existing directory is accepted, and a regular file in the chain raises
  (\<^verbatim>\<open>FileExistsError\<close> when it is the path itself, \<^verbatim>\<open>NotADirectoryError\<close> when it is
  an ancestor).  The message is the one CPython gives for the path \<open>whole\<close>.
\<close>

fun mkdir_chain :: "fs \<Rightarrow> string \<Rightarrow> string \<Rightarrow> string list \<Rightarrow> string list \<Rightarrow> exn + fs" where
  "mkdir_chain f whole r pre [] = Inr f"
| "mkdir_chain f whole r pre (x # xs) =
     (let cur = str_path \<lparr> proot = r, parts = pre @ [x] \<rparr>
      in case fs_get f cur of
           Some Dir \<Rightarrow> mkdir_chain f whole r (pre @ [x]) xs
         | Some (File b) \<Rightarrow>
             Inl (if xs = []
                  then Exn FileExistsError (''[Errno 17] File exists: '' @ quote whole)
                  else Exn NotADirectoryError (''[Errno 20] Not a directory: '' @ quote whole))
         | None \<Rightarrow> mkdir_chain (fs_put cur Dir f) whole r (pre @ [x]) xs)"

definition mkdir_parents :: "fs \<Rightarrow> ppath \<Rightarrow> exn + fs" where
  "mkdir_parents f P = mkdir_chain f (str_path P) (proot P) [] (parts P)"

text \<open>\<^verbatim>\<open>open(path, 'rb')\<close>: the content that the reads will deliver.\<close>

definition fs_open_rb :: "fs \<Rightarrow> ppath \<Rightarrow> exn + bytes" where
  "fs_open_rb f P =
     (case fs_get f (str_path P) of
        None \<Rightarrow> Inl (Exn FileNotFoundError
                      (''[Errno 2] No such file or directory: '' @ quote (str_path P)))
      | Some Dir \<Rightarrow> Inl (Exn IsADirectoryError
                          (''[Errno 21] Is a directory: '' @ quote (str_path P)))
      | Some (File b) \<Rightarrow> Inr b)"

text \<open>\<^verbatim>\<open>open(path, 'wb')\<close>: creates or truncates the file; its directory must exist.\<close>

definition fs_open_wb :: "fs \<Rightarrow> ppath \<Rightarrow> exn + fs" where
  "fs_open_wb f P =
     (case fs_get f (str_path P) of
        Some Dir \<Rightarrow> Inl (Exn IsADirectoryError
                          (''[Errno 21] Is a directory: '' @ quote (str_path P)))
      | _ \<Rightarrow>
         (case fs_get f (str_path (parent P)) of
            Some Dir \<Rightarrow> Inr (fs_put (str_path P) (File []) f)
          | Some (File b) \<Rightarrow> Inl (Exn NotADirectoryError
                                   (''[Errno 20] Not a directory: '' @ quote (str_path P)))
          | None \<Rightarrow> Inl (Exn FileNotFoundError
                          (''[Errno 2] No such file or directory: '' @ quote (str_path P)))))"

text \<open>\<^verbatim>\<open>f.write(chunk)\<close> on a file opened for writing: the bytes are appended.\<close>

definition fs_append :: "fs \<Rightarrow> ppath \<Rightarrow> bytes \<Rightarrow> fs" where
  "fs_append f P chunk =
     (case map_of f (str_path P) of
        Some (File b) \<Rightarrow> fs_put (str_path P) (File (b @ chunk)) f
      | _ \<Rightarrow> f)"

text \<open>
  \<^verbatim>\<open>path.stat().st_size\<close>.  The size of a directory depends on the platform; the source
  only reaches \<open>stat\<close> after it has read the path as a regular file.
\<close>

definition dir_st_size :: nat where
  "dir_st_size = 4096"

definition stat_size :: "fs \<Rightarrow> ppath \<Rightarrow> exn + nat" where
  "stat_size f P =
     (case fs_get f (str_path P) of
        None \<Rightarrow> Inl (Exn FileNotFoundError
                      (''[Errno 2] No such file or directory: '' @ quote (str_path P)))
      | Some Dir \<Rightarrow> Inr dir_st_size
      | Some (File b) \<Rightarrow> Inr (length b))"

section \<open>The SMB client library\<close>

text \<open>
  \<^verbatim>\<open>smbclient\<close> is an external library.  It is a parameter of the model: a record of
  operations over a state \<open>'r\<close> of the remote side, each returning either the
  exception it raises or its value, together with the new remote state.  A file
  opened for reading is given by the results of its successive \<^verbatim>\<open>read\<close> calls (a
  finite list: a remote file has finitely many bytes); once the list is used up a
  read returns \<^verbatim>\<open>b''\<close>.
\<close>

record stat_result =
  st_size :: int
  st_mtime :: real

record 'r smb_client =
  smb_exists :: "'r \<Rightarrow> string \<Rightarrow> (exn + bool) \<times> 'r"
  smb_makedirs :: "'r \<Rightarrow> string \<Rightarrow> (exn + unit) \<times> 'r"
  smb_open_wb :: "'r \<Rightarrow> string \<Rightarrow> (exn + unit) \<times> 'r"
  smb_write :: "'r \<Rightarrow> string \<Rightarrow> bytes \<Rightarrow> (exn + unit) \<times> 'r"
  smb_open_rb :: "'r \<Rightarrow> string \<Rightarrow> (exn + (exn + bytes) list) \<times> 'r"
  smb_close :: "'r \<Rightarrow> string \<Rightarrow> (exn + unit) \<times> 'r"
  smb_listdir :: "'r \<Rightarrow> string \<Rightarrow> (exn + string list) \<times> 'r"
  smb_stat :: "'r \<Rightarrow> string \<Rightarrow> (exn + stat_result) \<times> 'r"
  smb_isdir :: "'r \<Rightarrow> string \<Rightarrow> (exn + bool) \<times> 'r"

text \<open>Every call made to the library is recorded, in order.\<close>

datatype smb_call =
    CallExists string
  | CallMakedirs string
  | CallOpenWb string
  | CallWrite string bytes
  | CallOpenRb string
  | CallRead string nat
  | CallClose string
  | CallListdir string
  | CallStat string
  | CallIsdir string

record 'r world =
  local_fs :: fs
  remote :: 'r
  smb_calls :: "smb_call list"

definition call_exists :: "'r smb_client \<Rightarrow> 'r world \<Rightarrow> string \<Rightarrow> (exn + bool) \<times> 'r world" where
  "call_exists c w p =
     (case smb_exists c (remote w) p of
        (res, r') \<Rightarrow> (res, w\<lparr>remote := r', smb_calls := smb_calls w @ [CallExists p]\<rparr>))"

definition call_makedirs :: "'r smb_client \<Rightarrow> 'r world \<Rightarrow> string \<Rightarrow> (exn + unit) \<times> 'r world" where
  "call_makedirs c w p =
     (case smb_makedirs c (remote w) p of
        (res, r') \<Rightarrow> (res, w\<lparr>remote := r', smb_calls := smb_calls w @ [CallMakedirs p]\<rparr>))"

definition call_open_wb :: "'r smb_client \<Rightarrow> 'r world \<Rightarrow> string \<Rightarrow> (exn + unit) \<times> 'r world" where
  "call_open_wb c w p =
     (case smb_open_wb c (remote w) p of
        (res, r') \<Rightarrow> (res, w\<lparr>remote := r', smb_calls := smb_calls w @ [CallOpenWb p]\<rparr>))"

definition call_write :: "'r smb_client \<Rightarrow> 'r world \<Rightarrow> string \<Rightarrow> bytes \<Rightarrow> (exn + unit) \<times> 'r world" where
  "call_write c w p chunk =
     (case smb_write c (remote w) p chunk of
        (res, r') \<Rightarrow> (res, w\<lparr>remote := r', smb_calls := smb_calls w @ [CallWrite p chunk]\<rparr>))"

definition call_open_rb ::
  "'r smb_client \<Rightarrow> 'r world \<Rightarrow> string \<Rightarrow> (exn + (exn + bytes) list) \<times> 'r world" where
  "call_open_rb c w p =
     (case smb_open_rb c (remote w) p of
        (res, r') \<Rightarrow> (res, w\<lparr>remote := r', smb_calls := smb_calls w @ [CallOpenRb p]\<rparr>))"

definition call_close :: "'r smb_client \<Rightarrow> 'r world \<Rightarrow> string \<Rightarrow> (exn + unit) \<times> 'r world" where
  "call_close c w p =
     (case smb_close c (remote w) p of
        (res, r') \<Rightarrow> (res, w\<lparr>remote := r', smb_calls := smb_calls w @ [CallClose p]\<rparr>))"

definition call_listdir ::
  "'r smb_client \<Rightarrow> 'r world \<Rightarrow> string \<Rightarrow> (exn + string list) \<times> 'r world" where
  "call_listdir c w p =
     (case smb_listdir c (remote w) p of
        (res, r') \<Rightarrow> (res, w\<lparr>remote := r', smb_calls := smb_calls w @ [CallListdir p]\<rparr>))"

definition call_stat ::
  "'r smb_client \<Rightarrow> 'r world \<Rightarrow> string \<Rightarrow> (exn + stat_result) \<times> 'r world" where
  "call_stat c w p =
     (case smb_stat c (remote w) p of
        (res, r') \<Rightarrow> (res, w\<lparr>remote := r', smb_calls := smb_calls w @ [CallStat p]\<rparr>))"

definition call_isdir :: "'r smb_client \<Rightarrow> 'r world \<Rightarrow> string \<Rightarrow> (exn + bool) \<times> 'r world" where
  "call_isdir c w p =
     (case smb_isdir c (remote w) p of
        (res, r') \<Rightarrow> (res, w\<lparr>remote := r', smb_calls := smb_calls w @ [CallIsdir p]\<rparr>))"

section \<open>The transfer service\<close>

record SMBConfig =
  server :: string
  share :: string
  username :: string
  password :: string
  domain :: string
  port :: int
  require_signing :: bool
  encrypt :: bool
  timeout :: int

record SMBFileService =
  config :: SMBConfig
  server_url :: string

text \<open>
  \<^verbatim>\<open>SMBFileService.__init__\<close>: the share root.  The registration of the session with
  the library happens here as well; it is the one place where an exception of the
  library reaches the caller, and the operations below do not depend on it.
\<close>

definition SMBFileService_init :: "SMBConfig \<Rightarrow> SMBFileService" where
  "SMBFileService_init cfg =
     \<lparr> config = cfg, server_url = ''//'' @ server cfg @ ''/'' @ share cfg \<rparr>"

definition full_remote_path :: "SMBFileService \<Rightarrow> string \<Rightarrow> string" where
  "full_remote_path svc remote_path = server_url svc @ ''/'' @ lstrip_slash remote_path"

subsection \<open>\<^verbatim>\<open>_ensure_remote_dir\<close>\<close>

definition ensure_remote_dir_body ::
  "'r smb_client \<Rightarrow> 'r world \<Rightarrow> string \<Rightarrow> (exn + unit) \<times> 'r world" where
  "ensure_remote_dir_body c w remote_dir_path =
     (case call_exists c w remote_dir_path of
        (Inl e, w1) \<Rightarrow> (Inl e, w1)
      | (Inr ex, w1) \<Rightarrow>
          (if \<not> ex
           then (case call_makedirs c w1 remote_dir_path of
                   (Inl e, w2) \<Rightarrow> (Inl e, w2)
                 | (Inr u, w2) \<Rightarrow> (Inr (), w2))
           else (Inr (), w1)))"

text \<open>The \<^verbatim>\<open>except Exception\<close> clause only logs a warning.\<close>

definition ensure_remote_dir ::
  "'r smb_client \<Rightarrow> 'r world \<Rightarrow> string \<Rightarrow> (exn + unit) \<times> 'r world" where
  "ensure_remote_dir c w remote_dir_path =
     (case ensure_remote_dir_body c w remote_dir_path of
        (Inl e, w1) \<Rightarrow> (Inr (), w1)
      | (Inr u, w1) \<Rightarrow> (Inr (), w1))"

subsection \<open>\<^verbatim>\<open>upload_file\<close>\<close>

definition chunk_size :: nat where
  "chunk_size = 64 * 1024"

text \<open>
  The copy loop of \<^verbatim>\<open>upload_file\<close>; \<open>rest\<close> is what the local file object has not
  delivered yet, so \<^verbatim>\<open>local_f.read(chunk_size)\<close> is \<open>take chunk_size rest\<close>.
\<close>

function upload_loop ::
  "'r smb_client \<Rightarrow> 'r world \<Rightarrow> string \<Rightarrow> bytes \<Rightarrow> (exn + unit) \<times> 'r world" where
  "upload_loop c w full rest =
     (let chunk = take chunk_size rest
      in if chunk = [] then (Inr (), w)
         else (case call_write c w full chunk of
                 (Inl e, w1) \<Rightarrow> (Inl e, w1)
               | (Inr u, w1) \<Rightarrow> upload_loop c w1 full (drop chunk_size rest)))"
  by pat_completeness auto
termination
  by (relation "measure (\<lambda>(c, w, full, rest). length rest)") (auto simp: chunk_size_def)

declare upload_loop.simps [simp del]

text \<open>
  Leaving the \<^verbatim>\<open>with smbclient.open_file(...)\<close> block closes the remote file; an
  exception of the close replaces the one that was being raised.
\<close>

definition close_remote ::
  "'r smb_client \<Rightarrow> 'r world \<Rightarrow> string \<Rightarrow> exn + 'a \<Rightarrow> (exn + 'a) \<times> 'r world" where
  "close_remote c w full outcome =
     (case call_close c w full of
        (Inl e2, w1) \<Rightarrow> (Inl e2, w1)
      | (Inr u, w1) \<Rightarrow> (outcome, w1))"

definition upload_success :: "ppath \<Rightarrow> string \<Rightarrow> nat \<Rightarrow> pydict" where
  "upload_success local_file full file_size =
     [(''status'', PStr ''success''),
      (''local_path'', PStr (str_path local_file)),
      (''remote_path'', PStr full),
      (''size_bytes'', PInt (int file_size)),
      (''message'', PStr ''File uploaded successfully'')]"

definition upload_error :: "string \<Rightarrow> string \<Rightarrow> exn \<Rightarrow> pydict" where
  "upload_error local_path remote_path e =
     [(''status'', PStr ''error''),
      (''local_path'', PStr local_path),
      (''remote_path'', PStr remote_path),
      (''error'', PStr (str_exn e))]"

text \<open>
  The \<^verbatim>\<open>try\<close> block of \<^verbatim>\<open>upload_file\<close>: \<open>Inl\<close> is the exception it raises.
  \<open>upload_transfer\<close> is the part from the two \<^verbatim>\<open>with\<close> statements on.
\<close>

definition upload_transfer ::
  "'r smb_client \<Rightarrow> 'r world \<Rightarrow> ppath \<Rightarrow> string \<Rightarrow> (exn + pydict) \<times> 'r world" where
  "upload_transfer c w1 local_file full =
     (case fs_open_rb (local_fs w1) local_file of
        Inl e \<Rightarrow> (Inl e, w1)
      | Inr content \<Rightarrow>
         (case call_open_wb c w1 full of
            (Inl e, w2) \<Rightarrow> (Inl e, w2)
          | (Inr u, w2) \<Rightarrow>
             (case upload_loop c w2 full content of
                (Inl e, w3) \<Rightarrow> close_remote c w3 full (Inl e)
              | (Inr u2, w3) \<Rightarrow>
                 (case close_remote c w3 full (Inr ()) of
                    (Inl e, w4) \<Rightarrow> (Inl e, w4)
                  | (Inr u3, w4) \<Rightarrow>
                     (case stat_size (local_fs w4) local_file of
                        Inl e \<Rightarrow> (Inl e, w4)
                      | Inr file_size \<Rightarrow>
                          (Inr (upload_success local_file full file_size), w4))))))"

definition upload_body ::
  "SMBFileService \<Rightarrow> 'r smb_client \<Rightarrow> 'r world \<Rightarrow> string \<Rightarrow> string \<Rightarrow> bool
     \<Rightarrow> (exn + pydict) \<times> 'r world" where
  "upload_body svc c w local_path remote_path create_dirs =
     (let local_file = Path local_path
      in if \<not> path_exists (local_fs w) local_file
         then (Inl (Exn FileNotFoundError (''Local file not found: '' @ local_path)), w)
         else
           (let full = full_remote_path svc remote_path
            in if create_dirs
               then (case ensure_remote_dir c w (str_path (parent (Path full))) of
                       (Inl e, w1) \<Rightarrow> (Inl e, w1)
                     | (Inr u, w1) \<Rightarrow> upload_transfer c w1 local_file full)
               else upload_transfer c w local_file full))"

definition upload_file ::
  "SMBFileService \<Rightarrow> 'r smb_client \<Rightarrow> 'r world \<Rightarrow> string \<Rightarrow> string \<Rightarrow> bool
     \<Rightarrow> pydict \<times> 'r world" where
  "upload_file svc c w local_path remote_path create_dirs =
     (case upload_body svc c w local_path remote_path create_dirs of
        (Inl e, w1) \<Rightarrow> (upload_error local_path remote_path e, w1)
      | (Inr d, w1) \<Rightarrow> (d, w1))"

subsection \<open>\<^verbatim>\<open>download_file\<close>\<close>

text \<open>
  The copy loop of \<^verbatim>\<open>download_file\<close> over the results of the remote reads.
\<close>

fun download_loop ::
  "'r world \<Rightarrow> string \<Rightarrow> ppath \<Rightarrow> (exn + bytes) list \<Rightarrow> nat \<Rightarrow> (exn + nat) \<times> 'r world" where
  "download_loop w full local_file [] total_size =
     (Inr total_size, w\<lparr>smb_calls := smb_calls w @ [CallRead full chunk_size]\<rparr>)"
| "download_loop w full local_file (Inl e # reads) total_size =
     (Inl e, w\<lparr>smb_calls := smb_calls w @ [CallRead full chunk_size]\<rparr>)"
| "download_loop w full local_file (Inr chunk # reads) total_size =
     (let w1 = w\<lparr>smb_calls := smb_calls w @ [CallRead full chunk_size]\<rparr>
      in if chunk = [] then (Inr total_size, w1)
         else download_loop (w1\<lparr>local_fs := fs_append (local_fs w1) local_file chunk\<rparr>)
                full local_file reads (total_size + length chunk))"

definition download_success :: "string \<Rightarrow> ppath \<Rightarrow> nat \<Rightarrow> pydict" where
  "download_success full local_file total_size =
     [(''status'', PStr ''success''),
      (''remote_path'', PStr full),
      (''local_path'', PStr (str_path local_file)),
      (''size_bytes'', PInt (int total_size)),
      (''message'', PStr ''File downloaded successfully'')]"

definition download_error :: "string \<Rightarrow> string \<Rightarrow> exn \<Rightarrow> pydict" where
  "download_error remote_path local_path e =
     [(''status'', PStr ''error''),
      (''remote_path'', PStr remote_path),
      (''local_path'', PStr local_path),
      (''error'', PStr (str_exn e))]"

text \<open>The \<^verbatim>\<open>try\<close> block of \<^verbatim>\<open>download_file\<close>.\<close>

definition download_body ::
  "SMBFileService \<Rightarrow> 'r smb_client \<Rightarrow> 'r world \<Rightarrow> string \<Rightarrow> string \<Rightarrow> bool
     \<Rightarrow> (exn + pydict) \<times> 'r world" where
  "download_body svc c w remote_path local_path overwrite =
     (let local_file = Path local_path
      in if path_exists (local_fs w) local_file \<and> \<not> overwrite
         then (Inl (Exn FileExistsError
                      (''Local file exists and overwrite=False: '' @ local_path)), w)
         else
           (case mkdir_parents (local_fs w) (parent local_file) of
              Inl e \<Rightarrow> (Inl e, w)
            | Inr f1 \<Rightarrow>
               (let w1 = w\<lparr>local_fs := f1\<rparr>;
                    full = full_remote_path svc remote_path
                in case call_exists c w1 full of
                     (Inl e, w2) \<Rightarrow> (Inl e, w2)
                   | (Inr ex, w2) \<Rightarrow>
                      (if \<not> ex
                       then (Inl (Exn FileNotFoundError
                                    (''Remote file not found: '' @ full)), w2)
                       else
                         (case call_open_rb c w2 full of
                            (Inl e, w3) \<Rightarrow> (Inl e, w3)
                          | (Inr reads, w3) \<Rightarrow>
                             (case fs_open_wb (local_fs w3) local_file of
                                Inl e \<Rightarrow> close_remote c w3 full (Inl e)
                              | Inr f2 \<Rightarrow>
                                 (case download_loop (w3\<lparr>local_fs := f2\<rparr>)
                                         full local_file reads 0 of
                                    (Inl e, w4) \<Rightarrow> close_remote c w4 full (Inl e)
                                  | (Inr total_size, w4) \<Rightarrow>
                                      close_remote c w4 full
                                        (Inr (download_success full local_file
                                                total_size)))))))))"

definition download_file ::
  "SMBFileService \<Rightarrow> 'r smb_client \<Rightarrow> 'r world \<Rightarrow> string \<Rightarrow> string \<Rightarrow> bool
     \<Rightarrow> pydict \<times> 'r world" where
  "download_file svc c w remote_path local_path overwrite =
     (case download_body svc c w remote_path local_path overwrite of
        (Inl e, w1) \<Rightarrow> (download_error remote_path local_path e, w1)
      | (Inr d, w1) \<Rightarrow> (d, w1))"

subsection \<open>\<^verbatim>\<open>list_files\<close>\<close>

definition entry_placeholder :: "string \<Rightarrow> exn \<Rightarrow> pydict" where
  "entry_placeholder entry e = [(''name'', PStr entry), (''error'', PStr (str_exn e))]"

definition entry_info :: "string \<Rightarrow> stat_result \<Rightarrow> bool \<Rightarrow> pydict" where
  "entry_info entry stat_info is_dir =
     [(''name'', PStr entry),
      (''size'', PInt (st_size stat_info)),
      (''is_dir'', PBool is_dir),
      (''modified'', PFloat (st_mtime stat_info))]"

text \<open>
  One turn of the \<^verbatim>\<open>for entry in ...\<close> loop: the inner \<^verbatim>\<open>try\<close> covers both the
  \<^verbatim>\<open>smbclient.stat\<close> call and the \<^verbatim>\<open>smbclient.path.isdir\<close> call made while the
  dictionary is built.
\<close>

definition list_entry ::
  "'r smb_client \<Rightarrow> 'r world \<Rightarrow> string \<Rightarrow> string \<Rightarrow> pydict \<times> 'r world" where
  "list_entry c w full entry =
     (let entry_path = full @ ''/'' @ entry
      in case call_stat c w entry_path of
           (Inl e, w1) \<Rightarrow> (entry_placeholder entry e, w1)
         | (Inr stat_info, w1) \<Rightarrow>
            (case call_isdir c w1 entry_path of
               (Inl e, w2) \<Rightarrow> (entry_placeholder entry e, w2)
             | (Inr is_dir, w2) \<Rightarrow> (entry_info entry stat_info is_dir, w2)))"

fun list_loop ::
  "'r smb_client \<Rightarrow> 'r world \<Rightarrow> string \<Rightarrow> string list \<Rightarrow> pyval list
     \<Rightarrow> pyval list \<times> 'r world" where
  "list_loop c w full [] files = (files, w)"
| "list_loop c w full (entry # entries) files =
     (case list_entry c w full entry of
        (d, w1) \<Rightarrow> list_loop c w1 full entries (files @ [PDict d]))"

definition list_success :: "string \<Rightarrow> pyval list \<Rightarrow> pydict" where
  "list_success full files =
     [(''status'', PStr ''success''),
      (''path'', PStr full),
      (''files'', PList files),
      (''count'', PInt (int (length files)))]"

definition list_error :: "string \<Rightarrow> exn \<Rightarrow> pydict" where
  "list_error remote_path e =
     [(''status'', PStr ''error''),
      (''path'', PStr remote_path),
      (''error'', PStr (str_exn e))]"

definition list_files_body ::
  "SMBFileService \<Rightarrow> 'r smb_client \<Rightarrow> 'r world \<Rightarrow> string \<Rightarrow> (exn + pydict) \<times> 'r world" where
  "list_files_body svc c w remote_path =
     (let full = full_remote_path svc remote_path
      in case call_listdir c w full of
           (Inl e, w1) \<Rightarrow> (Inl e, w1)
         | (Inr entries, w1) \<Rightarrow>
            (case list_loop c w1 full entries [] of
               (files, w2) \<Rightarrow> (Inr (list_success full files), w2)))"

definition list_files ::
  "SMBFileService \<Rightarrow> 'r smb_client \<Rightarrow> 'r world \<Rightarrow> string \<Rightarrow> pydict \<times> 'r world" where
  "list_files svc c w remote_path =
     (case list_files_body svc c w remote_path of
        (Inl e, w1) \<Rightarrow> (list_error remote_path e, w1)
      | (Inr d, w1) \<Rightarrow> (d, w1))"

subsection \<open>\<^verbatim>\<open>test_connection\<close>\<close>

text \<open>Decimal digits of a natural number, for the f-string of the message.\<close>

function string_of_nat :: "nat \<Rightarrow> string" where
  "string_of_nat n =
     (if n < 10 then [''0123456789'' ! n]
      else string_of_nat (n div 10) @ [''0123456789'' ! (n mod 10)])"
  by pat_completeness auto
termination
  by (relation "measure (\<lambda>n. n)") auto

declare string_of_nat.simps [simp del]

definition test_connection_body ::
  "SMBFileService \<Rightarrow> 'r smb_client \<Rightarrow> 'r world \<Rightarrow> (exn + pydict) \<times> 'r world" where
  "test_connection_body svc c w =
     (case call_listdir c w (server_url svc) of
        (Inl e, w1) \<Rightarrow> (Inl e, w1)
      | (Inr result, w1) \<Rightarrow>
          (Inr [(''status'', PStr ''success''),
                (''server'', PStr (server (config svc))),
                (''share'', PStr (share (config svc))),
                (''signing_required'', PBool (require_signing (config svc))),
                (''connection'', PStr ''active''),
                (''message'', PStr (''Connected successfully. Found ''
                                     @ string_of_nat (length result)
                                     @ '' items in root.''))], w1))"

definition test_connection ::
  "SMBFileService \<Rightarrow> 'r smb_client \<Rightarrow> 'r world \<Rightarrow> pydict \<times> 'r world" where
  "test_connection svc c w =
     (case test_connection_body svc c w of
        (Inl e, w1) \<Rightarrow>
          ([(''status'', PStr ''error''),
            (''server'', PStr (server (config svc))),
            (''share'', PStr (share (config svc))),
            (''error'', PStr (str_exn e))], w1)
      | (Inr d, w1) \<Rightarrow> (d, w1))"

section \<open>Configuration loading\<close>

definition getenv :: "(string \<times> string) list \<Rightarrow> string \<Rightarrow> string \<Rightarrow> string" where
  "getenv environ k dflt = (case map_of environ k of Some v \<Rightarrow> v | None \<Rightarrow> dflt)"

text \<open>\<^verbatim>\<open>s.lower()\<close> on ASCII letters.\<close>

definition py_lower :: "string \<Rightarrow> string" where
  "py_lower s =
     map (\<lambda>ch. case map_of (zip ''ABCDEFGHIJKLMNOPQRSTUVWXYZ''
                                 ''abcdefghijklmnopqrstuvwxyz'') ch of
                 Some l \<Rightarrow> l
               | None \<Rightarrow> ch) s"

text \<open>
  \<^verbatim>\<open>load_config_from_env\<close>.  The builtin \<^verbatim>\<open>int\<close> is the parameter \<open>py_int\<close>; the
  environment is \<open>environ\<close>.  The \<^verbatim>\<open>except\<close> clause logs and raises the same exception
  again.
\<close>

definition load_config_from_env ::
  "(string \<Rightarrow> exn + int) \<Rightarrow> (string \<times> string) list \<Rightarrow> exn + SMBConfig" where
  "load_config_from_env py_int environ =
     (case py_int (getenv environ ''SMB_PORT'' ''445'') of
        Inl e \<Rightarrow> Inl e
      | Inr port_v \<Rightarrow>
         (case py_int (getenv environ ''SMB_TIMEOUT'' ''30'') of
            Inl e \<Rightarrow> Inl e
          | Inr timeout_v \<Rightarrow>
             (let cfg = \<lparr> server = getenv environ ''SMB_SERVER'' [],
                          share = getenv environ ''SMB_SHARE'' [],
                          username = getenv environ ''SMB_USERNAME'' [],
                          password = getenv environ ''SMB_PASSWORD'' [],
                          domain = getenv environ ''SMB_DOMAIN'' [],
                          port = port_v,
                          require_signing =
                            (py_lower (getenv environ ''SMB_REQUIRE_SIGNING'' ''true'') = ''true''),
                          encrypt =
                            (py_lower (getenv environ ''SMB_ENCRYPT'' ''false'') = ''true''),
                          timeout = timeout_v \<rparr>
              in if \<not> (server cfg \<noteq> [] \<and> share cfg \<noteq> []
                        \<and> username cfg \<noteq> [] \<and> password cfg \<noteq> [])
                 then Inl (Exn ValueError
                   ''Missing required environment variables: SMB_SERVER, SMB_SHARE, SMB_USERNAME, SMB_PASSWORD'')
                 else Inr cfg)))"

text \<open>A reading of plain decimal digit strings, on which the builtin \<^verbatim>\<open>int\<close> agrees.\<close>

definition dec_int :: "string \<Rightarrow> exn + int" where
  "dec_int s =
     (if s \<noteq> [] \<and> list_all (\<lambda>ch. ch \<in> set ''0123456789'') s
      then Inr (foldl (\<lambda>acc ch. 10 * acc
                         + int (length (takeWhile (\<lambda>d. d \<noteq> ch) ''0123456789''))) 0 s)
      else Inl (Exn ValueError ''invalid literal for int() with base 10''))"

text \<open>
  The \<^verbatim>\<open>__init__\<close> that \<^verbatim>\<open>@dataclass\<close> generates for \<^verbatim>\<open>SMBConfig\<close>, called as
  \<^verbatim>\<open>SMBConfig(**config_data)\<close>: a keyword that is no field is a \<^verbatim>\<open>TypeError\<close>, a
  missing field without default is a \<^verbatim>\<open>TypeError\<close> that lists the missing names, and
  the values are stored as they are.  The record is typed, so the result is \<open>None\<close>
  where a value has another type than the annotation of its field (Python stores it
  unchecked).
\<close>

definition SMBConfig_fields :: "string list" where
  "SMBConfig_fields = [''server'', ''share'', ''username'', ''password'', ''domain'',
                       ''port'', ''require_signing'', ''encrypt'', ''timeout'']"

definition SMBConfig_required :: "string list" where
  "SMBConfig_required = [''server'', ''share'', ''username'', ''password'']"

definition quote_list :: "string list \<Rightarrow> string" where
  "quote_list names = join_with '', '' (map quote names)"

fun format_missing :: "string list \<Rightarrow> string" where
  "format_missing [] = []"
| "format_missing [a] = quote a"
| "format_missing [a, b] = quote a @ '' and '' @ quote b"
| "format_missing (a # b # d # ds) =
     quote_list (butlast (a # b # d # ds)) @ '', and '' @ quote (last (a # b # d # ds))"

definition missing_message :: "string list \<Rightarrow> string" where
  "missing_message names =
     ''SMBConfig.__init__() missing '' @ string_of_nat (length names)
       @ '' required positional argument'' @ (if length names = 1 then [] else ''s'')
       @ '': '' @ format_missing names"

definition field_str :: "pydict \<Rightarrow> string \<Rightarrow> string \<Rightarrow> string option" where
  "field_str kvs k dflt =
     (case map_of kvs k of
        None \<Rightarrow> Some dflt
      | Some (PStr s) \<Rightarrow> Some s
      | Some v \<Rightarrow> None)"

definition field_int :: "pydict \<Rightarrow> string \<Rightarrow> int \<Rightarrow> int option" where
  "field_int kvs k dflt =
     (case map_of kvs k of
        None \<Rightarrow> Some dflt
      | Some (PInt i) \<Rightarrow> Some i
      | Some v \<Rightarrow> None)"

definition field_bool :: "pydict \<Rightarrow> string \<Rightarrow> bool \<Rightarrow> bool option" where
  "field_bool kvs k dflt =
     (case map_of kvs k of
        None \<Rightarrow> Some dflt
      | Some (PBool b) \<Rightarrow> Some b
      | Some v \<Rightarrow> None)"

definition SMBConfig_typed :: "pydict \<Rightarrow> SMBConfig option" where
  "SMBConfig_typed kvs =
     (case (field_str kvs ''server'' [], field_str kvs ''share'' [],
            field_str kvs ''username'' [], field_str kvs ''password'' [],
            field_str kvs ''domain'' []) of
        (Some sv, Some sh, Some un, Some pw, Some dm) \<Rightarrow>
          (case (field_int kvs ''port'' 445, field_bool kvs ''require_signing'' True,
                 field_bool kvs ''encrypt'' False, field_int kvs ''timeout'' 30) of
             (Some pt, Some rs, Some en, Some tm) \<Rightarrow>
               Some \<lparr> server = sv, share = sh, username = un, password = pw, domain = dm,
                      port = pt, require_signing = rs, encrypt = en, timeout = tm \<rparr>
           | _ \<Rightarrow> None)
      | _ \<Rightarrow> None)"

definition SMBConfig_kwargs :: "pydict \<Rightarrow> (exn + SMBConfig) option" where
  "SMBConfig_kwargs kvs =
     (case filter (\<lambda>k. k \<notin> set SMBConfig_fields) (map fst kvs) of
        k # ks \<Rightarrow> Some (Inl (Exn TypeError
                    (''SMBConfig.__init__() got an unexpected keyword argument '' @ quote k)))
      | [] \<Rightarrow>
         (case filter (\<lambda>k. k \<notin> set (map fst kvs)) SMBConfig_required of
            [] \<Rightarrow> map_option Inr (SMBConfig_typed kvs)
          | m # ms \<Rightarrow> Some (Inl (Exn TypeError (missing_message (m # ms))))))"

fun py_type_name :: "pyval \<Rightarrow> string" where
  "py_type_name PNone = ''NoneType''"
| "py_type_name (PBool b) = ''bool''"
| "py_type_name (PInt i) = ''int''"
| "py_type_name (PFloat x) = ''float''"
| "py_type_name (PStr s) = ''str''"
| "py_type_name (PList xs) = ''list''"
| "py_type_name (PDict kvs) = ''dict''"

text \<open>
  \<^verbatim>\<open>load_config_from_file\<close>.  \<open>loaded\<close> is what opening the file and \<^verbatim>\<open>json.load\<close>
  give: the exception raised or the parsed value.  Nothing is validated after the
  construction of the \<^verbatim>\<open>SMBConfig\<close>.
\<close>

definition load_config_from_file :: "exn + pyval \<Rightarrow> (exn + SMBConfig) option" where
  "load_config_from_file loaded =
     (case loaded of
        Inl e \<Rightarrow> Some (Inl e)
      | Inr (PDict kvs) \<Rightarrow> SMBConfig_kwargs kvs
      | Inr v \<Rightarrow> Some (Inl (Exn TypeError
                   (''SMBConfig() argument after ** must be a mapping, not ''
                      @ py_type_name v))))"

section \<open>The request gateway\<close>

datatype http_method = GET | POST | DELETE

text \<open>
  What a handler reads of the Flask \<^verbatim>\<open>request\<close>: its method, the query parameters
  (\<^verbatim>\<open>request.args\<close>) and what \<^verbatim>\<open>request.get_json()\<close> does, which is to return the
  parsed body or to raise.
\<close>

record request =
  req_method :: http_method
  req_args :: "(string \<times> string) list"
  req_get_json :: "exn + pyval"

text \<open>A response is the body given to \<^verbatim>\<open>jsonify\<close> and the status code.\<close>

type_synonym response = "pydict \<times> nat"

text \<open>Truth value of a Python object (\<^verbatim>\<open>not x\<close> is its negation).\<close>

fun py_truthy :: "pyval \<Rightarrow> bool" where
  "py_truthy PNone = False"
| "py_truthy (PBool b) = b"
| "py_truthy (PInt i) = (i \<noteq> 0)"
| "py_truthy (PFloat x) = (x \<noteq> 0)"
| "py_truthy (PStr s) = (s \<noteq> [])"
| "py_truthy (PList xs) = (xs \<noteq> [])"
| "py_truthy (PDict kvs) = (kvs \<noteq> [])"

fun is_prefix :: "string \<Rightarrow> string \<Rightarrow> bool" where
  "is_prefix [] ys = True"
| "is_prefix (x # xs) [] = False"
| "is_prefix (x # xs) (y # ys) = (x = y \<and> is_prefix xs ys)"

fun is_infix :: "string \<Rightarrow> string \<Rightarrow> bool" where
  "is_infix xs [] = (xs = [])"
| "is_infix xs (y # ys) = (is_prefix xs (y # ys) \<or> is_infix xs ys)"

text \<open>\<^verbatim>\<open>k in data\<close> for a string \<open>k\<close>.\<close>

fun py_in :: "string \<Rightarrow> pyval \<Rightarrow> exn + bool" where
  "py_in k (PDict kvs) = Inr (k \<in> set (map fst kvs))"
| "py_in k (PList xs) = Inr (PStr k \<in> set xs)"
| "py_in k (PStr s) = Inr (is_infix k s)"
| "py_in k v = Inl (Exn TypeError
                      (''argument of type '' @ quote (py_type_name v) @ '' is not iterable''))"

text \<open>\<^verbatim>\<open>data[k]\<close> for a string \<open>k\<close>.\<close>

fun py_getitem :: "pyval \<Rightarrow> string \<Rightarrow> exn + pyval" where
  "py_getitem (PDict kvs) k =
     (case map_of kvs k of
        Some v \<Rightarrow> Inr v
      | None \<Rightarrow> Inl (Exn KeyError (quote k)))"
| "py_getitem (PList xs) k =
     Inl (Exn TypeError ''list indices must be integers or slices, not str'')"
| "py_getitem (PStr s) k =
     Inl (Exn TypeError (''string indices must be integers, not '' @ quote ''str''))"
| "py_getitem v k =
     Inl (Exn TypeError (quote (py_type_name v) @ '' object is not subscriptable''))"

definition error_response :: "string \<Rightarrow> nat \<Rightarrow> response" where
  "error_response msg code = ([(''status'', PStr ''error''), (''error'', PStr msg)], code)"

text \<open>
  The decorator \<^verbatim>\<open>require_smb_service\<close>; \<open>smb_service\<close> is the module's global, \<open>None\<close>
  until one of the \<^verbatim>\<open>init_smb_service_...\<close> functions has succeeded.
\<close>

definition require_smb_service ::
  "SMBFileService option \<Rightarrow> (SMBFileService \<Rightarrow> 'w \<Rightarrow> response \<times> 'w) \<Rightarrow> 'w \<Rightarrow> response \<times> 'w" where
  "require_smb_service smb_service f w =
     (case smb_service of
        None \<Rightarrow> (error_response ''SMB service not initialized'' 500, w)
      | Some svc \<Rightarrow> f svc w)"

subsection \<open>\<^verbatim>\<open>/smb/delete\<close>\<close>

definition not_implemented :: response where
  "not_implemented =
     error_response ''Delete functionality not yet implemented in SMB service'' 501"

definition delete_file_body :: "request \<Rightarrow> exn + response" where
  "delete_file_body req =
     (if req_method req = DELETE
      then (case map_of (req_args req) ''path'' of
              None \<Rightarrow> Inr (error_response ''remote_path parameter is required'' 400)
            | Some remote_path \<Rightarrow>
               (if remote_path = []
                then Inr (error_response ''remote_path parameter is required'' 400)
                else Inr not_implemented))
      else (case req_get_json req of
              Inl e \<Rightarrow> Inl e
            | Inr data \<Rightarrow>
               (if \<not> py_truthy data
                then Inr (error_response ''remote_path is required'' 400)
                else (case py_in ''remote_path'' data of
                        Inl e \<Rightarrow> Inl e
                      | Inr present \<Rightarrow>
                         (if \<not> present
                          then Inr (error_response ''remote_path is required'' 400)
                          else (case py_getitem data ''remote_path'' of
                                  Inl e \<Rightarrow> Inl e
                                | Inr remote_path \<Rightarrow>
                                   (if \<not> py_truthy remote_path
                                    then Inr (error_response
                                                ''remote_path parameter is required'' 400)
                                    else Inr not_implemented)))))))"

definition delete_file_view :: "request \<Rightarrow> response" where
  "delete_file_view req =
     (case delete_file_body req of
        Inl e \<Rightarrow> error_response (str_exn e) 500
      | Inr resp \<Rightarrow> resp)"

definition delete_file :: "SMBFileService option \<Rightarrow> request \<Rightarrow> 'w \<Rightarrow> response \<times> 'w" where
  "delete_file smb_service req w =
     require_smb_service smb_service (\<lambda>svc w1. (delete_file_view req, w1)) w"

subsection \<open>\<^verbatim>\<open>/smb/mkdir\<close>\<close>

definition mkdir_created :: "string \<Rightarrow> response" where
  "mkdir_created full_path =
     ([(''status'', PStr ''success''),
       (''remote_path'', PStr full_path),
       (''message'', PStr ''Directory created successfully'')], 200)"

definition create_directory_body ::
  "SMBFileService \<Rightarrow> 'r smb_client \<Rightarrow> request \<Rightarrow> 'r world \<Rightarrow> (exn + response) \<times> 'r world" where
  "create_directory_body svc c req w =
     (case req_get_json req of
        Inl e \<Rightarrow> (Inl e, w)
      | Inr data \<Rightarrow>
         (if \<not> py_truthy data
          then (Inr (error_response ''remote_path is required'' 400), w)
          else (case py_in ''remote_path'' data of
                  Inl e \<Rightarrow> (Inl e, w)
                | Inr present \<Rightarrow>
                   (if \<not> present
                    then (Inr (error_response ''remote_path is required'' 400), w)
                    else (case py_getitem data ''remote_path'' of
                            Inl e \<Rightarrow> (Inl e, w)
                          | Inr (PStr remote_path) \<Rightarrow>
                             (let full_path = server_url svc @ ''/'' @ lstrip_slash remote_path
                              in case ensure_remote_dir c w full_path of
                                   (Inl e, w1) \<Rightarrow> (Inl e, w1)
                                 | (Inr u, w1) \<Rightarrow> (Inr (mkdir_created full_path), w1))
                          | Inr v \<Rightarrow>
                             (Inl (Exn AttributeError
                                     (quote (py_type_name v)
                                        @ '' object has no attribute '' @ quote ''lstrip'')),
                              w))))))"

definition create_directory_view ::
  "SMBFileService \<Rightarrow> 'r smb_client \<Rightarrow> request \<Rightarrow> 'r world \<Rightarrow> response \<times> 'r world" where
  "create_directory_view svc c req w =
     (case create_directory_body svc c req w of
        (Inl e, w1) \<Rightarrow> (error_response (str_exn e) 500, w1)
      | (Inr resp, w1) \<Rightarrow> (resp, w1))"

definition create_directory ::
  "SMBFileService option \<Rightarrow> 'r smb_client \<Rightarrow> request \<Rightarrow> 'r world \<Rightarrow> response \<times> 'r world" where
  "create_directory smb_service c req w =
     require_smb_service smb_service (\<lambda>svc w1. create_directory_view svc c req w1) w"

section \<open>Two SMB clients\<close>

text \<open>
  A share that stores what is written to it: its state is a file system, and no call
  fails for a reason other than the state of that file system.
\<close>

function chunks_of :: "nat \<Rightarrow> bytes \<Rightarrow> bytes list" where
  "chunks_of n b = (if n = 0 \<or> b = [] then [] else take n b # chunks_of n (drop n b))"
  by pat_completeness auto
termination
  by (relation "measure (\<lambda>(n, b). length b)") auto

declare chunks_of.simps [simp del]

definition share_makedirs :: "fs \<Rightarrow> string \<Rightarrow> (exn + unit) \<times> fs" where
  "share_makedirs r p =
     (if path_exists r (Path p)
      then (Inl (Exn FileExistsError (''[Error 17] File exists: '' @ quote p)), r)
      else (case mkdir_parents r (Path p) of
              Inl e \<Rightarrow> (Inl e, r)
            | Inr r1 \<Rightarrow> (Inr (), r1)))"

definition share_open_wb :: "fs \<Rightarrow> string \<Rightarrow> (exn + unit) \<times> fs" where
  "share_open_wb r p =
     (case fs_open_wb r (Path p) of
        Inl e \<Rightarrow> (Inl e, r)
      | Inr r1 \<Rightarrow> (Inr (), r1))"

definition share_open_rb :: "fs \<Rightarrow> string \<Rightarrow> (exn + (exn + bytes) list) \<times> fs" where
  "share_open_rb r p =
     (case fs_open_rb r (Path p) of
        Inl e \<Rightarrow> (Inl e, r)
      | Inr b \<Rightarrow> (Inr (map Inr (chunks_of chunk_size b)), r))"

definition share_listdir :: "fs \<Rightarrow> string \<Rightarrow> (exn + string list) \<times> fs" where
  "share_listdir r p =
     (case fs_get r (str_path (Path p)) of
        None \<Rightarrow> (Inl (Exn FileNotFoundError
                        (''[Error 2] No such file or directory: '' @ quote p)), r)
      | Some (File b) \<Rightarrow> (Inl (Exn NotADirectoryError
                                 (''[Error 20] Not a directory: '' @ quote p)), r)
      | Some Dir \<Rightarrow>
          (Inr (map (\<lambda>k. last (parts (Path k)))
                  (filter (\<lambda>k. parts (Path k) \<noteq> []
                               \<and> str_path (parent (Path k)) = str_path (Path p))
                     (map fst r))), r))"

definition share_stat :: "fs \<Rightarrow> string \<Rightarrow> (exn + stat_result) \<times> fs" where
  "share_stat r p =
     (case fs_get r (str_path (Path p)) of
        None \<Rightarrow> (Inl (Exn FileNotFoundError
                        (''[Error 2] No such file or directory: '' @ quote p)), r)
      | Some (File b) \<Rightarrow> (Inr \<lparr> st_size = int (length b), st_mtime = 0 \<rparr>, r)
      | Some Dir \<Rightarrow> (Inr \<lparr> st_size = 0, st_mtime = 0 \<rparr>, r))"

definition faithful_share :: "fs smb_client" where
  "faithful_share =
     \<lparr> smb_exists = (\<lambda>r p. (Inr (path_exists r (Path p)), r)),
       smb_makedirs = share_makedirs,
       smb_open_wb = share_open_wb,
       smb_write = (\<lambda>r p chunk. (Inr (), fs_append r (Path p) chunk)),
       smb_open_rb = share_open_rb,
       smb_close = (\<lambda>r p. (Inr (), r)),
       smb_listdir = share_listdir,
       smb_stat = share_stat,
       smb_isdir = (\<lambda>r p. (Inr (fs_get r (str_path (Path p)) = Some Dir), r)) \<rparr>"

text \<open>A server that cannot be reached: every call raises.\<close>

definition unreachable :: exn where
  "unreachable = Exn OtherException ''connection lost''"

definition unreachable_share :: "unit smb_client" where
  "unreachable_share =
     \<lparr> smb_exists = (\<lambda>r p. (Inl unreachable, r)),
       smb_makedirs = (\<lambda>r p. (Inl unreachable, r)),
       smb_open_wb = (\<lambda>r p. (Inl unreachable, r)),
       smb_write = (\<lambda>r p chunk. (Inl unreachable, r)),
       smb_open_rb = (\<lambda>r p. (Inl unreachable, r)),
       smb_close = (\<lambda>r p. (Inl unreachable, r)),
       smb_listdir = (\<lambda>r p. (Inl unreachable, r)),
       smb_stat = (\<lambda>r p. (Inl unreachable, r)),
       smb_isdir = (\<lambda>r p. (Inl unreachable, r)) \<rparr>"

section \<open>Request shapes and example inputs\<close>

text \<open>
  A request to \<^verbatim>\<open>/smb/delete\<close> names a remote path when it is a \<^verbatim>\<open>DELETE\<close> with a
  non-empty \<^verbatim>\<open>path\<close> query parameter, or a \<^verbatim>\<open>POST\<close> whose JSON body is an object
  with a \<^verbatim>\<open>remote_path\<close> member that Python takes for true.
\<close>

definition names_remote_path :: "request \<Rightarrow> bool" where
  "names_remote_path req =
     (if req_method req = DELETE
      then (case map_of (req_args req) ''path'' of
              None \<Rightarrow> False
            | Some p \<Rightarrow> p \<noteq> [])
      else (case req_get_json req of
              Inr (PDict kvs) \<Rightarrow>
                (case map_of kvs ''remote_path'' of
                   None \<Rightarrow> False
                 | Some v \<Rightarrow> py_truthy v)
            | _ \<Rightarrow> False))"

definition example_config :: SMBConfig where
  "example_config =
     \<lparr> server = ''srv'', share = ''docs'', username = ''u'', password = ''p'',
       domain = [], port = 445, require_signing = True, encrypt = False, timeout = 30 \<rparr>"

definition example_service :: SMBFileService where
  "example_service = SMBFileService_init example_config"

definition example_world :: "fs world" where
  "example_world =
     \<lparr> local_fs = [(''a.bin'', File [1, 2, 3])],
       remote = [(''//srv'', Dir), (''//srv/docs'', Dir)],
       smb_calls = [] \<rparr>"

definition offline_world :: "unit world" where
  "offline_world =
     \<lparr> local_fs = [(''a.bin'', File [1, 2, 3])], remote = (), smb_calls = [] \<rparr>"

text \<open>
  The shape every operation's result has: the status tag is \<^verbatim>\<open>success\<close> or
  \<^verbatim>\<open>error\<close>, and the key \<^verbatim>\<open>error\<close> is present exactly in the second case.
\<close>

definition uniform_result :: "pydict \<Rightarrow> bool" where
  "uniform_result d =
     ((map_of d ''status'' = Some (PStr ''success'') \<or> map_of d ''status'' = Some (PStr ''error''))
      \<and> ((''error'' \<in> set (map fst d)) = (map_of d ''status'' = Some (PStr ''error''))))"

text \<open>The world in which the loop of \<^verbatim>\<open>list_files\<close> reaches the entry of index \<open>i\<close>.\<close>

definition world_at ::
  "'r smb_client \<Rightarrow> 'r world \<Rightarrow> string \<Rightarrow> string list \<Rightarrow> nat \<Rightarrow> 'r world" where
  "world_at c w full entries i = snd (list_loop c w full (take i entries) [])"

text \<open>A share on which the metadata of one entry cannot be read.\<close>

definition flaky_share :: "fs smb_client" where
  "flaky_share =
     faithful_share
       \<lparr> smb_stat := (\<lambda>r p. if str_path (Path p) = ''//srv/docs/locked''
                            then (Inl (Exn OtherException ''access denied''), r)
                            else share_stat r p) \<rparr>"

definition listing_world :: "fs world" where
  "listing_world =
     \<lparr> local_fs = [],
       remote = [(''//srv'', Dir), (''//srv/docs'', Dir),
                 (''//srv/docs/a.txt'', File [7, 7]),
                 (''//srv/docs/locked'', File [1]),
                 (''//srv/docs/sub'', Dir)],
       smb_calls = [] \<rparr>"

text \<open>A server that accepts every call and keeps nothing.\<close>

definition accepting_share :: "unit smb_client" where
  "accepting_share =
     \<lparr> smb_exists = (\<lambda>r p. (Inr True, r)),
       smb_makedirs = (\<lambda>r p. (Inr (), r)),
       smb_open_wb = (\<lambda>r p. (Inr (), r)),
       smb_write = (\<lambda>r p chunk. (Inr (), r)),
       smb_open_rb = (\<lambda>r p. (Inr [], r)),
       smb_close = (\<lambda>r p. (Inr (), r)),
       smb_listdir = (\<lambda>r p. (Inr [], r)),
       smb_stat = (\<lambda>r p. (Inr \<lparr> st_size = 0, st_mtime = 0 \<rparr>, r)),
       smb_isdir = (\<lambda>r p. (Inr False, r)) \<rparr>"

section \<open>Basic facts\<close>

lemma ensure_remote_dir_never_raises: "fst (ensure_remote_dir c w p) = Inr ()"
  by (simp add: ensure_remote_dir_def split: prod.splits sum.splits)

lemma ensure_remote_dir_local: "local_fs (snd (ensure_remote_dir c w p)) = local_fs w"
  by (auto simp: ensure_remote_dir_def ensure_remote_dir_body_def call_exists_def
      call_makedirs_def split: prod.splits sum.splits if_splits)

lemma map_of_mem: "map_of kvs k = Some v \<Longrightarrow> k \<in> fst ` set kvs"
  by (metis domI dom_map_of_conv_image_fst)

lemma map_of_fs_put: "map_of (fs_put k v f) = (map_of f)(k \<mapsto> v)"
  by (induction f) (auto simp: fun_eq_iff)

lemma fs_put_get: "fs_get (fs_put k Dir f) k = Some Dir"
  by (simp add: fs_get_def map_of_fs_put)

lemma mkdir_chain_last:
  assumes "mkdir_chain f whole r pre xs = Inr f1" and "xs \<noteq> []"
  shows "fs_get f1 (str_path \<lparr> proot = r, parts = pre @ xs \<rparr>) = Some Dir"
  using assms
proof (induction xs arbitrary: f pre)
  case Nil
  then show ?case by simp
next
  case (Cons x xs)
  define cur where "cur = str_path \<lparr> proot = r, parts = pre @ [x] \<rparr>"
  show ?case
  proof (cases "fs_get f cur")
    case None
    with Cons.prems(1) have step: "mkdir_chain (fs_put cur Dir f) whole r (pre @ [x]) xs = Inr f1"
      by (simp add: cur_def [symmetric] Let_def)
    show ?thesis
    proof (cases "xs = []")
      case True
      with step show ?thesis by (auto simp: cur_def [symmetric] fs_put_get)
    next
      case False
      from Cons.IH [OF step False] show ?thesis by simp
    qed
  next
    case (Some n)
    show ?thesis
    proof (cases n)
      case (File b')
      with Some Cons.prems(1) show ?thesis by (simp add: cur_def [symmetric] Let_def)
    next
      case Dir
      with Some Cons.prems(1) have step: "mkdir_chain f whole r (pre @ [x]) xs = Inr f1"
        by (simp add: cur_def [symmetric] Let_def)
      show ?thesis
      proof (cases "xs = []")
        case True
        with step Some Dir show ?thesis by (auto simp: cur_def [symmetric])
      next
        case False
        from Cons.IH [OF step False] show ?thesis by simp
      qed
    qed
  qed
qed

lemma proot_Path: "proot (Path s) = [] \<or> proot (Path s) = ''/'' \<or> proot (Path s) = ''//''"
  by (simp add: Path_def Let_def)

lemma ensure_remote_dir_then_exists:
  assumes "fst (ensure_remote_dir_body faithful_share w p) = Inr ()"
  shows "path_exists (remote (snd (ensure_remote_dir faithful_share w p))) (Path p)"
proof (cases "path_exists (remote w) (Path p)")
  case True
  then show ?thesis
    by (simp add: ensure_remote_dir_def ensure_remote_dir_body_def call_exists_def
        faithful_share_def)
next
  case False
  show ?thesis
  proof (cases "mkdir_parents (remote w) (Path p)")
    case (Inl e)
    with False assms show ?thesis
      by (simp add: ensure_remote_dir_body_def call_exists_def call_makedirs_def
          faithful_share_def share_makedirs_def)
  next
    case (Inr r1)
    have made: "fs_get r1 (str_path (Path p)) = Some Dir"
    proof (cases "parts (Path p) = []")
      case True
      then have "str_path (Path p) = ''.'' \<or> str_path (Path p) = ''/''
                 \<or> str_path (Path p) = ''//''"
        using proot_Path [of p] by (auto simp: str_path_def)
      then show ?thesis by (auto simp: fs_get_def)
    next
      case ne: False
      have "mkdir_chain (remote w) (str_path (Path p)) (proot (Path p)) [] (parts (Path p))
              = Inr r1"
        using Inr by (simp add: mkdir_parents_def)
      from mkdir_chain_last [OF this ne]
      have "fs_get r1 (str_path \<lparr> proot = proot (Path p), parts = parts (Path p) \<rparr>)
              = Some Dir"
        by simp
      moreover have "str_path \<lparr> proot = proot (Path p), parts = parts (Path p) \<rparr>
                       = str_path (Path p)"
        by (simp add: str_path_def)
      ultimately show ?thesis by (simp only:)
    qed
    have "remote (snd (ensure_remote_dir faithful_share w p)) = r1"
      using False Inr
      by (simp add: ensure_remote_dir_def ensure_remote_dir_body_def call_exists_def
          call_makedirs_def faithful_share_def share_makedirs_def)
    with made show ?thesis by (simp add: path_exists_def)
  qed
qed

section \<open>Directory creation is best effort\<close>

text \<open>
  C7.  \<^verbatim>\<open>_ensure_remote_dir\<close> never raises.  When the library reports that the directory
  exists, the call consists of that one existence check: no \<^verbatim>\<open>makedirs\<close> call is made
  and nothing else changes.  When the body raises (the existence check or the creation
  failed), the exception is dropped and the caller gets a normal return.  On a share
  that stores what is written, a call whose body did not raise is followed by a call
  that only checks: the second call leaves the share as it is and makes no
  \<^verbatim>\<open>makedirs\<close> call.
\<close>

theorem ensure_remote_dir_idempotent:
  "fst (ensure_remote_dir c w p) = Inr ()
   \<and> (fst (smb_exists c (remote w) p) = Inr True \<longrightarrow>
        snd (ensure_remote_dir c w p)
          = w\<lparr>remote := snd (smb_exists c (remote w) p),
               smb_calls := smb_calls w @ [CallExists p]\<rparr>)
   \<and> (\<forall>e. fst (ensure_remote_dir_body c w p) = Inl e \<longrightarrow>
        ensure_remote_dir c w p = (Inr (), snd (ensure_remote_dir_body c w p)))
   \<and> (fst (ensure_remote_dir_body faithful_share ws p) = Inr () \<longrightarrow>
        snd (ensure_remote_dir faithful_share (snd (ensure_remote_dir faithful_share ws p)) p)
          = (snd (ensure_remote_dir faithful_share ws p))
              \<lparr>smb_calls := smb_calls (snd (ensure_remote_dir faithful_share ws p))
                              @ [CallExists p]\<rparr>)"
proof -
  have general: "fst (ensure_remote_dir c w p) = Inr ()
   \<and> (fst (smb_exists c (remote w) p) = Inr True \<longrightarrow>
        snd (ensure_remote_dir c w p)
          = w\<lparr>remote := snd (smb_exists c (remote w) p),
               smb_calls := smb_calls w @ [CallExists p]\<rparr>)
   \<and> (\<forall>e. fst (ensure_remote_dir_body c w p) = Inl e \<longrightarrow>
        ensure_remote_dir c w p = (Inr (), snd (ensure_remote_dir_body c w p)))"
    by (auto simp: ensure_remote_dir_def ensure_remote_dir_body_def call_exists_def
        split: prod.splits sum.splits)
  have twice: "snd (ensure_remote_dir faithful_share
                      (snd (ensure_remote_dir faithful_share ws p)) p)
                 = (snd (ensure_remote_dir faithful_share ws p))
                     \<lparr>smb_calls := smb_calls (snd (ensure_remote_dir faithful_share ws p))
                                     @ [CallExists p]\<rparr>"
    if ok: "fst (ensure_remote_dir_body faithful_share ws p) = Inr ()"
    using ensure_remote_dir_then_exists [OF ok]
    by (simp add: ensure_remote_dir_def ensure_remote_dir_body_def call_exists_def
        faithful_share_def)
  show ?thesis
    using general twice by blast
qed

text \<open>
  On the share of the example the first call creates \<^verbatim>\<open>//srv/docs/new\<close>; the second
  call finds it and only checks; on the unreachable server the failure is dropped.
\<close>

theorem ensure_remote_dir_idempotent_witness:
  "fst (smb_exists faithful_share
          (remote (snd (ensure_remote_dir faithful_share example_world ''//srv/docs/new'')))
          ''//srv/docs/new'') = Inr True
   \<and> smb_calls (snd (ensure_remote_dir faithful_share
          (snd (ensure_remote_dir faithful_share example_world ''//srv/docs/new''))
          ''//srv/docs/new''))
       = [CallExists ''//srv/docs/new'', CallMakedirs ''//srv/docs/new'',
          CallExists ''//srv/docs/new'']
   \<and> fst (ensure_remote_dir_body unreachable_share offline_world ''//srv/docs/new'')
       = Inl unreachable
   \<and> fst (ensure_remote_dir unreachable_share offline_world ''//srv/docs/new'') = Inr ()"
proof -
  define w1 where "w1 = snd (ensure_remote_dir faithful_share example_world ''//srv/docs/new'')"
  have calls1: "smb_calls w1
                  = [CallExists ''//srv/docs/new'', CallMakedirs ''//srv/docs/new'']"
    unfolding w1_def by code_simp
  have h: "fst (smb_exists faithful_share (remote w1) ''//srv/docs/new'') = Inr True"
    unfolding w1_def by code_simp
  have ok: "fst (ensure_remote_dir_body faithful_share example_world ''//srv/docs/new'')
              = Inr ()"
    by code_simp
  have second: "smb_calls (snd (ensure_remote_dir faithful_share w1 ''//srv/docs/new''))
                  = smb_calls w1 @ [CallExists ''//srv/docs/new'']"
    using ensure_remote_dir_idempotent
            [of faithful_share w1 "''//srv/docs/new''" example_world] h ok
    by (simp add: w1_def)
  have body: "fst (ensure_remote_dir_body unreachable_share offline_world ''//srv/docs/new'')
                = Inl unreachable"
    by code_simp
  have dropped: "fst (ensure_remote_dir unreachable_share offline_world ''//srv/docs/new'')
                   = Inr ()"
    using ensure_remote_dir_idempotent
            [of unreachable_share offline_world "''//srv/docs/new''" example_world]
    by simp
  show ?thesis
    using h second calls1 body dropped unfolding w1_def by simp
qed

text \<open>
  C10, as the code has it.  A \<^verbatim>\<open>POST /smb/mkdir\<close> whose JSON body is an object with
  a string \<^verbatim>\<open>remote_path\<close> is answered, once the service is initialised, with status
  200, \<^verbatim>\<open>status: success\<close> and the message \<^verbatim>\<open>Directory created successfully\<close>,
  whatever the library did: the world after the request is the one
  \<^verbatim>\<open>_ensure_remote_dir\<close> leaves, and an exception raised in it never reaches the
  handler.
\<close>

theorem create_directory_always_success:
  assumes "req_get_json req = Inr (PDict kvs)"
    and "map_of kvs ''remote_path'' = Some (PStr remote_path)"
  shows "create_directory (Some svc) c req w
           = (mkdir_created (server_url svc @ ''/'' @ lstrip_slash remote_path),
              snd (ensure_remote_dir c w (server_url svc @ ''/'' @ lstrip_slash remote_path)))"
proof -
  define full_path where "full_path = server_url svc @ ''/'' @ lstrip_slash remote_path"
  from assms(2) have ne: "kvs \<noteq> []" by auto
  from assms(2) have mem: "''remote_path'' \<in> fst ` set kvs"
    by (rule map_of_mem)
  obtain w1 where ens: "ensure_remote_dir c w full_path = (Inr (), w1)"
    using ensure_remote_dir_never_raises [of c w full_path]
    by (cases "ensure_remote_dir c w full_path") auto
  have "create_directory_body svc c req w = (Inr (mkdir_created full_path), w1)"
    using assms ne mem ens
    by (simp add: create_directory_body_def Let_def full_path_def)
  then show ?thesis
    using ens
    by (simp add: create_directory_def require_smb_service_def create_directory_view_def
        full_path_def)
qed

text \<open>
  On the unreachable server the existence check inside \<^verbatim>\<open>_ensure_remote_dir\<close> raises,
  no directory is created, and the answer is still 200.
\<close>

theorem create_directory_always_success_witness:
  "fst (ensure_remote_dir_body unreachable_share offline_world ''//srv/docs/new/dir'')
     = Inl unreachable
   \<and> fst (create_directory (Some example_service) unreachable_share
            \<lparr> req_method = POST, req_args = [],
              req_get_json = Inr (PDict [(''remote_path'', PStr ''/new/dir'')]) \<rparr>
            offline_world)
       = ([(''status'', PStr ''success''),
           (''remote_path'', PStr ''//srv/docs/new/dir''),
           (''message'', PStr ''Directory created successfully'')], 200)"
proof -
  have body: "fst (ensure_remote_dir_body unreachable_share offline_world ''//srv/docs/new/dir'')
                = Inl unreachable"
    by code_simp
  have url: "server_url example_service @ ''/'' @ lstrip_slash ''/new/dir''
               = ''//srv/docs/new/dir''"
    by code_simp
  have "fst (create_directory (Some example_service) unreachable_share
            \<lparr> req_method = POST, req_args = [],
              req_get_json = Inr (PDict [(''remote_path'', PStr ''/new/dir'')]) \<rparr>
            offline_world)
          = mkdir_created (server_url example_service @ ''/'' @ lstrip_slash ''/new/dir'')"
    using create_directory_always_success
            [of "\<lparr> req_method = POST, req_args = [],
                   req_get_json = Inr (PDict [(''remote_path'', PStr ''/new/dir'')]) \<rparr>"
                "[(''remote_path'', PStr ''/new/dir'')]" "''/new/dir''"
                example_service unreachable_share offline_world]
    by simp
  then show ?thesis
    using body url by (simp add: mkdir_created_def)
qed

text \<open>
  A body whose \<^verbatim>\<open>remote_path\<close> is the number 5 contains \<^verbatim>\<open>remote_path\<close>, and the
  handler answers 500: \<^verbatim>\<open>remote_path.lstrip\<close> raises and the \<^verbatim>\<open>except\<close> clause of the
  handler takes over.  Before the service is initialised the decorator answers 500 to
  every request.
\<close>

theorem create_directory_always_200_counterexample:
  "py_in ''remote_path'' (PDict [(''remote_path'', PInt 5)]) = Inr True
   \<and> fst (create_directory (Some example_service) accepting_share
            \<lparr> req_method = POST, req_args = [],
              req_get_json = Inr (PDict [(''remote_path'', PInt 5)]) \<rparr>
            offline_world)
       = ([(''status'', PStr ''error''),
           (''error'', PStr (quote ''int'' @ '' object has no attribute '' @ quote ''lstrip''))],
          500)
   \<and> fst (create_directory None accepting_share
            \<lparr> req_method = POST, req_args = [],
              req_get_json = Inr (PDict [(''remote_path'', PStr ''/new/dir'')]) \<rparr>
            offline_world)
       = ([(''status'', PStr ''error''), (''error'', PStr ''SMB service not initialized'')],
          500)"
  by code_simp

section \<open>Downloads\<close>

text \<open>
  C4.  When \<^verbatim>\<open>local_path\<close> exists and \<^verbatim>\<open>overwrite\<close> is false, the \<^verbatim>\<open>try\<close> block of
  \<^verbatim>\<open>download_file\<close> raises \<^verbatim>\<open>FileExistsError\<close>, the result is the error record with
  that message, and the world is returned as it was: no call to the SMB library is
  recorded, the remote state and the local file system are unchanged.
\<close>

theorem download_existing_no_overwrite:
  assumes "path_exists (local_fs w) (Path local_path)"
  shows "fst (download_body svc c w remote_path local_path False)
           = Inl (Exn FileExistsError (''Local file exists and overwrite=False: '' @ local_path))
         \<and> download_file svc c w remote_path local_path False
             = (download_error remote_path local_path
                  (Exn FileExistsError (''Local file exists and overwrite=False: '' @ local_path)),
                w)"
  using assms by (simp add: download_file_def download_body_def)

theorem download_existing_no_overwrite_witness:
  "path_exists (local_fs example_world) (Path ''a.bin'')
   \<and> download_file example_service faithful_share example_world ''x.bin'' ''a.bin'' False
       = ([(''status'', PStr ''error''),
           (''remote_path'', PStr ''x.bin''),
           (''local_path'', PStr ''a.bin''),
           (''error'', PStr ''Local file exists and overwrite=False: a.bin'')],
          example_world)"
proof -
  have h: "path_exists (local_fs example_world) (Path ''a.bin'')"
    by code_simp
  show ?thesis
    using h download_existing_no_overwrite
              [OF h, of example_service faithful_share "''x.bin''"]
    by (simp add: download_error_def)
qed

section \<open>The delete endpoint\<close>

text \<open>
  C9, as the code has it.  With the service initialised, a request to \<^verbatim>\<open>/smb/delete\<close>
  that names a remote path is answered with status 501 and the not-implemented body;
  a request that does not is answered with 400 (the path is missing or empty) or 500
  (an exception was raised while the body was read).
\<close>

theorem delete_file_status:
  "(names_remote_path req \<longrightarrow> delete_file (Some svc) req w = (not_implemented, w))
   \<and> (\<not> names_remote_path req \<longrightarrow>
        snd (fst (delete_file (Some svc) req w)) = 400
        \<or> snd (fst (delete_file (Some svc) req w)) = 500)"
proof (cases "req_method req = DELETE")
  case True
  then show ?thesis
    by (auto simp: names_remote_path_def delete_file_def require_smb_service_def
        delete_file_view_def delete_file_body_def error_response_def
        split: option.splits)
next
  case False
  show ?thesis
  proof (cases "req_get_json req")
    case (Inl e)
    with False show ?thesis
      by (simp add: names_remote_path_def delete_file_def require_smb_service_def
        delete_file_view_def delete_file_body_def error_response_def)
  next
    case (Inr data)
    with False show ?thesis
      by (cases data)
         (auto simp: names_remote_path_def delete_file_def require_smb_service_def
          delete_file_view_def delete_file_body_def error_response_def
          map_of_eq_None_iff
          split: option.splits dest: map_of_mem)
  qed
qed

theorem delete_file_status_witness:
  "names_remote_path \<lparr> req_method = DELETE, req_args = [(''path'', ''old.txt'')],
                       req_get_json = Inr PNone \<rparr>
   \<and> delete_file (Some example_service)
        \<lparr> req_method = DELETE, req_args = [(''path'', ''old.txt'')],
          req_get_json = Inr PNone \<rparr> ()
       = (([(''status'', PStr ''error''),
            (''error'', PStr ''Delete functionality not yet implemented in SMB service'')],
           501), ())
   \<and> \<not> names_remote_path \<lparr> req_method = POST, req_args = [],
                             req_get_json = Inr (PDict [(''remote_path'', PStr [])]) \<rparr>
   \<and> snd (fst (delete_file (Some example_service)
                  \<lparr> req_method = POST, req_args = [],
                    req_get_json = Inr (PDict [(''remote_path'', PStr [])]) \<rparr> ()))
       \<in> {400, 500}"
proof -
  have h1: "names_remote_path \<lparr> req_method = DELETE, req_args = [(''path'', ''old.txt'')],
                                req_get_json = Inr PNone \<rparr>"
    by (simp add: names_remote_path_def)
  have h2: "\<not> names_remote_path \<lparr> req_method = POST, req_args = [],
                                  req_get_json = Inr (PDict [(''remote_path'', PStr [])]) \<rparr>"
    by (simp add: names_remote_path_def)
  show ?thesis
    using h1 h2
      delete_file_status [of "\<lparr> req_method = DELETE, req_args = [(''path'', ''old.txt'')],
                                req_get_json = Inr PNone \<rparr>" example_service "()"]
      delete_file_status [of "\<lparr> req_method = POST, req_args = [],
                                req_get_json = Inr (PDict [(''remote_path'', PStr [])]) \<rparr>"
                             example_service "()"]
    by (auto simp: not_implemented_def error_response_def)
qed

text \<open>A \<^verbatim>\<open>DELETE\<close> without \<^verbatim>\<open>path\<close> parameter is answered with 400, not 501.\<close>

theorem delete_file_always_501_counterexample:
  "snd (fst (delete_file (Some example_service)
               \<lparr> req_method = DELETE, req_args = [], req_get_json = Inr PNone \<rparr> ()))
     = 400
   \<and> snd (fst (delete_file (Some example_service)
               \<lparr> req_method = DELETE, req_args = [], req_get_json = Inr PNone \<rparr> ()))
     \<noteq> 501"
  by (simp add: delete_file_def require_smb_service_def delete_file_view_def
      delete_file_body_def error_response_def)

section \<open>Every operation returns a result record\<close>

lemma close_remote_Inr:
  "close_remote c w full outcome = (Inr d, w1) \<Longrightarrow> outcome = Inr d"
  by (auto simp: close_remote_def split: prod.splits sum.splits)

lemma upload_transfer_Inr:
  "upload_transfer c w lf full = (Inr d, w1) \<Longrightarrow> \<exists>n. d = upload_success lf full n"
  by (auto simp: upload_transfer_def split: prod.splits sum.splits dest: close_remote_Inr)

lemma upload_body_Inr:
  "upload_body svc c w lp rp cd = (Inr d, w1)
     \<Longrightarrow> \<exists>n. d = upload_success (Path lp) (full_remote_path svc rp) n"
  by (auto simp: upload_body_def Let_def split: if_splits prod.splits sum.splits
      dest: upload_transfer_Inr)

lemma download_body_Inr:
  "download_body svc c w rp lp ow = (Inr d, w1)
     \<Longrightarrow> \<exists>n. d = download_success (full_remote_path svc rp) (Path lp) n"
  by (auto simp: download_body_def Let_def split: if_splits prod.splits sum.splits
      dest: close_remote_Inr)

lemma list_files_body_Inr:
  "list_files_body svc c w rp = (Inr d, w1)
     \<Longrightarrow> \<exists>files. d = list_success (full_remote_path svc rp) files"
  by (auto simp: list_files_body_def Let_def split: if_splits prod.splits sum.splits)

lemma uniform_upload: "uniform_result (fst (upload_file svc c w lp rp cd))"
proof (cases "upload_body svc c w lp rp cd")
  case (Pair res w1)
  show ?thesis
  proof (cases res)
    case (Inl e)
    with Pair show ?thesis
      by (simp add: upload_file_def upload_error_def uniform_result_def)
  next
    case (Inr d)
    with Pair upload_body_Inr [of svc c w lp rp cd d w1] show ?thesis
      by (auto simp: upload_file_def upload_success_def uniform_result_def)
  qed
qed

lemma uniform_download: "uniform_result (fst (download_file svc c w rp lp ow))"
proof (cases "download_body svc c w rp lp ow")
  case (Pair res w1)
  show ?thesis
  proof (cases res)
    case (Inl e)
    with Pair show ?thesis
      by (simp add: download_file_def download_error_def uniform_result_def)
  next
    case (Inr d)
    with Pair download_body_Inr [of svc c w rp lp ow d w1] show ?thesis
      by (auto simp: download_file_def download_success_def uniform_result_def)
  qed
qed

lemma uniform_list: "uniform_result (fst (list_files svc c w rp))"
proof (cases "list_files_body svc c w rp")
  case (Pair res w1)
  show ?thesis
  proof (cases res)
    case (Inl e)
    with Pair show ?thesis
      by (simp add: list_files_def list_error_def uniform_result_def)
  next
    case (Inr d)
    with Pair list_files_body_Inr [of svc c w rp d w1] show ?thesis
      by (auto simp: list_files_def list_success_def uniform_result_def)
  qed
qed

lemma uniform_test: "uniform_result (fst (test_connection svc c w))"
  by (auto simp: test_connection_def test_connection_body_def uniform_result_def
      split: prod.splits sum.splits)

text \<open>
  C2.  Whatever the inputs and whatever the SMB library does, each of the four public
  operations returns a result record whose status is \<^verbatim>\<open>success\<close> or \<^verbatim>\<open>error\<close> and
  which has the key \<^verbatim>\<open>error\<close> exactly when the status is \<^verbatim>\<open>error\<close>; an exception raised
  inside the \<^verbatim>\<open>try\<close> block becomes the error record that carries its message.
\<close>

theorem operations_return_uniform_results:
  "uniform_result (fst (upload_file svc c w local_path remote_path create_dirs))
   \<and> uniform_result (fst (download_file svc c w remote_path local_path overwrite))
   \<and> uniform_result (fst (list_files svc c w remote_path))
   \<and> uniform_result (fst (test_connection svc c w))
   \<and> (\<forall>e. fst (upload_body svc c w local_path remote_path create_dirs) = Inl e \<longrightarrow>
         fst (upload_file svc c w local_path remote_path create_dirs)
           = upload_error local_path remote_path e)
   \<and> (\<forall>e. fst (download_body svc c w remote_path local_path overwrite) = Inl e \<longrightarrow>
         fst (download_file svc c w remote_path local_path overwrite)
           = download_error remote_path local_path e)
   \<and> (\<forall>e. fst (list_files_body svc c w remote_path) = Inl e \<longrightarrow>
         fst (list_files svc c w remote_path) = list_error remote_path e)
   \<and> (\<forall>e. fst (test_connection_body svc c w) = Inl e \<longrightarrow>
         map_of (fst (test_connection svc c w)) ''error'' = Some (PStr (str_exn e)))"
proof -
  have a: "\<forall>e. fst (upload_body svc c w local_path remote_path create_dirs) = Inl e \<longrightarrow>
         fst (upload_file svc c w local_path remote_path create_dirs)
           = upload_error local_path remote_path e"
    by (auto simp: upload_file_def split: prod.splits sum.splits)
  have b: "\<forall>e. fst (download_body svc c w remote_path local_path overwrite) = Inl e \<longrightarrow>
         fst (download_file svc c w remote_path local_path overwrite)
           = download_error remote_path local_path e"
    by (auto simp: download_file_def split: prod.splits sum.splits)
  have c: "\<forall>e. fst (list_files_body svc c w remote_path) = Inl e \<longrightarrow>
         fst (list_files svc c w remote_path) = list_error remote_path e"
    by (auto simp: list_files_def split: prod.splits sum.splits)
  have d: "\<forall>e. fst (test_connection_body svc c w) = Inl e \<longrightarrow>
         map_of (fst (test_connection svc c w)) ''error'' = Some (PStr (str_exn e))"
    by (auto simp: test_connection_def split: prod.splits sum.splits)
  show ?thesis
    using uniform_upload uniform_download uniform_list uniform_test a b c d by blast
qed


theorem operations_return_uniform_results_witness:
  "fst (upload_body example_service unreachable_share offline_world ''a.bin'' ''y.bin'' True)
     = Inl unreachable
   \<and> fst (upload_file example_service unreachable_share offline_world ''a.bin'' ''y.bin'' True)
       = upload_error ''a.bin'' ''y.bin'' unreachable
   \<and> fst (download_body example_service unreachable_share offline_world ''y.bin'' ''a.bin'' True)
       = Inl unreachable
   \<and> fst (download_file example_service unreachable_share offline_world ''y.bin'' ''a.bin'' True)
       = download_error ''y.bin'' ''a.bin'' unreachable
   \<and> fst (list_files_body example_service unreachable_share offline_world ''y.bin'')
       = Inl unreachable
   \<and> fst (list_files example_service unreachable_share offline_world ''y.bin'')
       = list_error ''y.bin'' unreachable
   \<and> fst (test_connection_body example_service unreachable_share offline_world)
       = Inl unreachable
   \<and> map_of (fst (test_connection example_service unreachable_share offline_world)) ''error''
       = Some (PStr ''connection lost'')
   \<and> uniform_result
        (fst (upload_file example_service unreachable_share offline_world ''a.bin'' ''y.bin'' True))"
proof -
  have u: "fst (upload_body example_service unreachable_share offline_world
                  ''a.bin'' ''y.bin'' True) = Inl unreachable"
    by code_simp
  have d: "fst (download_body example_service unreachable_share offline_world
                  ''y.bin'' ''a.bin'' True) = Inl unreachable"
    by code_simp
  have l: "fst (list_files_body example_service unreachable_share offline_world ''y.bin'')
             = Inl unreachable"
    by code_simp
  have t: "fst (test_connection_body example_service unreachable_share offline_world)
             = Inl unreachable"
    by code_simp
  have s: "str_exn unreachable = ''connection lost''"
    by (simp add: unreachable_def)
  note r = operations_return_uniform_results
             [of example_service unreachable_share offline_world "''a.bin''" "''y.bin''"
                 True True]
  have e: "map_of (fst (test_connection example_service unreachable_share offline_world))
             ''error'' = Some (PStr ''connection lost'')"
    using r t s by simp
  show ?thesis
    using u d l t r e by blast
qed

section \<open>Listings keep going\<close>

lemma list_loop_snd: "snd (list_loop c w full es acc) = snd (list_loop c w full es [])"
proof (induction es arbitrary: w acc)
  case Nil
  show ?case by simp
next
  case (Cons e es)
  obtain d w1 where le: "list_entry c w full e = (d, w1)" by (cases "list_entry c w full e")
  have "snd (list_loop c w1 full es (acc @ [PDict d])) = snd (list_loop c w1 full es [PDict d])"
    using Cons.IH [of w1 "acc @ [PDict d]"] Cons.IH [of w1 "[PDict d]"] by simp
  then show ?case using le by simp
qed

lemma list_loop_fst: "fst (list_loop c w full es acc) = acc @ fst (list_loop c w full es [])"
proof (induction es arbitrary: w acc)
  case Nil
  show ?case by simp
next
  case (Cons e es)
  obtain d w1 where le: "list_entry c w full e = (d, w1)" by (cases "list_entry c w full e")
  have "fst (list_loop c w1 full es (acc @ [PDict d]))
          = acc @ fst (list_loop c w1 full es [PDict d])"
    using Cons.IH [of w1 "acc @ [PDict d]"] Cons.IH [of w1 "[PDict d]"] by simp
  then show ?case using le by simp
qed

lemma list_loop_length: "length (fst (list_loop c w full es [])) = length es"
proof (induction es arbitrary: w)
  case Nil
  show ?case by simp
next
  case (Cons e es)
  obtain d w1 where le: "list_entry c w full e = (d, w1)" by (cases "list_entry c w full e")
  have "fst (list_loop c w full (e # es) []) = [PDict d] @ fst (list_loop c w1 full es [])"
    using le list_loop_fst [of c w1 full es "[PDict d]"] by simp
  then show ?case using Cons.IH [of w1] by simp
qed

lemma list_loop_nth:
  "i < length es \<Longrightarrow>
   fst (list_loop c w full es []) ! i
     = PDict (fst (list_entry c (world_at c w full es i) full (es ! i)))"
proof (induction es arbitrary: w i)
  case Nil
  then show ?case by simp
next
  case (Cons e es)
  obtain d w1 where le: "list_entry c w full e = (d, w1)" by (cases "list_entry c w full e")
  have unfold: "fst (list_loop c w full (e # es) []) = PDict d # fst (list_loop c w1 full es [])"
    using le list_loop_fst [of c w1 full es "[PDict d]"] by simp
  show ?case
  proof (cases i)
    case 0
    then show ?thesis using unfold le by (simp add: world_at_def)
  next
    case (Suc j)
    with Cons.prems have j: "j < length es" by simp
    have "world_at c w full (e # es) (Suc j) = world_at c w1 full es j"
      using le list_loop_snd [of c w1 full "take j es" "[PDict d]"]
      by (simp add: world_at_def)
    then show ?thesis
      using Suc unfold Cons.IH [OF j, of w1] by simp
  qed
qed

lemma list_entry_cases:
  "(case fst (smb_stat c (remote w) (full @ ''/'' @ entry)) of
      Inl e \<Rightarrow> fst (list_entry c w full entry) = entry_placeholder entry e
    | Inr stat_info \<Rightarrow>
        (case fst (smb_isdir c (snd (smb_stat c (remote w) (full @ ''/'' @ entry)))
                     (full @ ''/'' @ entry)) of
           Inl e \<Rightarrow> fst (list_entry c w full entry) = entry_placeholder entry e
         | Inr is_dir \<Rightarrow> fst (list_entry c w full entry) = entry_info entry stat_info is_dir))"
  by (auto simp: list_entry_def call_stat_def call_isdir_def Let_def
      split: prod.splits sum.splits)

text \<open>
  C6.  When the enumeration of the directory succeeds with \<open>entries\<close>, \<^verbatim>\<open>list_files\<close>
  returns a success record whose \<^verbatim>\<open>count\<close> is the number of entries and whose \<^verbatim>\<open>files\<close>
  has one element per entry, in order.  The element of an entry whose metadata
  retrieval raises (the \<^verbatim>\<open>smbclient.stat\<close> call, or the stat behind
  \<^verbatim>\<open>smbclient.path.isdir\<close>) is the placeholder with the name and the error string;
  the element of every other entry carries name, size, is_dir and modified.  The
  library is asked in the world in which the loop reaches the entry.
\<close>

theorem list_files_partial_results:
  assumes "fst (smb_listdir c (remote w) (full_remote_path svc remote_path)) = Inr entries"
  shows "\<exists>files w2.
           list_files svc c w remote_path
             = ([(''status'', PStr ''success''),
                 (''path'', PStr (full_remote_path svc remote_path)),
                 (''files'', PList files),
                 (''count'', PInt (int (length entries)))], w2)
           \<and> length files = length entries
           \<and> (\<forall>i < length entries.
                (let full = full_remote_path svc remote_path;
                     entry = entries ! i;
                     entry_path = full @ ''/'' @ entry;
                     wi = world_at c (snd (call_listdir c w full)) full entries i
                 in case fst (smb_stat c (remote wi) entry_path) of
                      Inl e \<Rightarrow> files ! i = PDict [(''name'', PStr entry),
                                                    (''error'', PStr (str_exn e))]
                    | Inr stat_info \<Rightarrow>
                       (case fst (smb_isdir c (snd (smb_stat c (remote wi) entry_path))
                                    entry_path) of
                          Inl e \<Rightarrow> files ! i = PDict [(''name'', PStr entry),
                                                        (''error'', PStr (str_exn e))]
                        | Inr is_dir \<Rightarrow>
                            files ! i = PDict [(''name'', PStr entry),
                                               (''size'', PInt (st_size stat_info)),
                                               (''is_dir'', PBool is_dir),
                                               (''modified'', PFloat (st_mtime stat_info))])))"
proof -
  define full where "full = full_remote_path svc remote_path"
  define w1 where "w1 = snd (call_listdir c w full)"
  define files where "files = fst (list_loop c w1 full entries [])"
  define w2 where "w2 = snd (list_loop c w1 full entries [])"
  have cl: "call_listdir c w full = (Inr entries, w1)"
    using assms by (cases "smb_listdir c (remote w) full") (simp add: call_listdir_def w1_def full_def)
  have len: "length files = length entries"
    by (simp add: files_def list_loop_length)
  have res: "list_files svc c w remote_path
               = ([(''status'', PStr ''success''), (''path'', PStr full),
                   (''files'', PList files), (''count'', PInt (int (length entries)))], w2)"
    using cl len
    by (cases "list_loop c w1 full entries []")
       (simp add: list_files_def list_files_body_def full_def [symmetric] files_def w2_def
        list_success_def)
  have each: "\<forall>i < length entries.
                (let entry = entries ! i;
                     entry_path = full @ ''/'' @ entry;
                     wi = world_at c w1 full entries i
                 in case fst (smb_stat c (remote wi) entry_path) of
                      Inl e \<Rightarrow> files ! i = PDict [(''name'', PStr entry),
                                                    (''error'', PStr (str_exn e))]
                    | Inr stat_info \<Rightarrow>
                       (case fst (smb_isdir c (snd (smb_stat c (remote wi) entry_path))
                                    entry_path) of
                          Inl e \<Rightarrow> files ! i = PDict [(''name'', PStr entry),
                                                        (''error'', PStr (str_exn e))]
                        | Inr is_dir \<Rightarrow>
                            files ! i = PDict [(''name'', PStr entry),
                                               (''size'', PInt (st_size stat_info)),
                                               (''is_dir'', PBool is_dir),
                                               (''modified'', PFloat (st_mtime stat_info))]))"
  proof (intro allI impI)
    fix i assume i: "i < length entries"
    have nth: "files ! i = PDict (fst (list_entry c (world_at c w1 full entries i) full (entries ! i)))"
      unfolding files_def by (rule list_loop_nth [OF i])
    show "(let entry = entries ! i;
                     entry_path = full @ ''/'' @ entry;
                     wi = world_at c w1 full entries i
                 in case fst (smb_stat c (remote wi) entry_path) of
                      Inl e \<Rightarrow> files ! i = PDict [(''name'', PStr entry),
                                                    (''error'', PStr (str_exn e))]
                    | Inr stat_info \<Rightarrow>
                       (case fst (smb_isdir c (snd (smb_stat c (remote wi) entry_path))
                                    entry_path) of
                          Inl e \<Rightarrow> files ! i = PDict [(''name'', PStr entry),
                                                        (''error'', PStr (str_exn e))]
                        | Inr is_dir \<Rightarrow>
                            files ! i = PDict [(''name'', PStr entry),
                                               (''size'', PInt (st_size stat_info)),
                                               (''is_dir'', PBool is_dir),
                                               (''modified'', PFloat (st_mtime stat_info))]))"
      using list_entry_cases [of c "world_at c w1 full entries i" full "entries ! i"] nth
      by (simp add: Let_def entry_placeholder_def entry_info_def split: sum.splits)
  qed
  show ?thesis
    using res len each
    by (intro exI [of _ files] exI [of _ w2]) (simp add: Let_def w1_def full_def)
qed


theorem list_files_partial_results_witness:
  "fst (smb_listdir flaky_share (remote listing_world) (full_remote_path example_service []))
     = Inr [''a.txt'', ''locked'', ''sub'']
   \<and> fst (list_files example_service flaky_share listing_world [])
       = [(''status'', PStr ''success''),
          (''path'', PStr ''//srv/docs/''),
          (''files'', PList
             [PDict [(''name'', PStr ''a.txt''), (''size'', PInt 2),
                     (''is_dir'', PBool False), (''modified'', PFloat 0)],
              PDict [(''name'', PStr ''locked''), (''error'', PStr ''access denied'')],
              PDict [(''name'', PStr ''sub''), (''size'', PInt 0),
                     (''is_dir'', PBool True), (''modified'', PFloat 0)]]),
          (''count'', PInt 3)]
   \<and> (\<exists>files w2.
         list_files example_service flaky_share listing_world []
           = ([(''status'', PStr ''success''),
               (''path'', PStr (full_remote_path example_service [])),
               (''files'', PList files),
               (''count'', PInt (int (length [''a.txt'', ''locked'', ''sub''])))], w2)
         \<and> length files = length [''a.txt'', ''locked'', ''sub''])"
proof -
  have h: "fst (smb_listdir flaky_share (remote listing_world)
                  (full_remote_path example_service []))
             = Inr [''a.txt'', ''locked'', ''sub'']"
    by code_simp
  have v: "fst (list_files example_service flaky_share listing_world [])
       = [(''status'', PStr ''success''),
          (''path'', PStr ''//srv/docs/''),
          (''files'', PList
             [PDict [(''name'', PStr ''a.txt''), (''size'', PInt 2),
                     (''is_dir'', PBool False), (''modified'', PFloat 0)],
              PDict [(''name'', PStr ''locked''), (''error'', PStr ''access denied'')],
              PDict [(''name'', PStr ''sub''), (''size'', PInt 0),
                     (''is_dir'', PBool True), (''modified'', PFloat 0)]]),
          (''count'', PInt 3)]"
    by code_simp
  from list_files_partial_results [OF h]
  have "\<exists>files w2.
         list_files example_service flaky_share listing_world []
           = ([(''status'', PStr ''success''),
               (''path'', PStr (full_remote_path example_service [])),
               (''files'', PList files),
               (''count'', PInt (int (length [''a.txt'', ''locked'', ''sub''])))], w2)
         \<and> length files = length [''a.txt'', ''locked'', ''sub'']"
    by blast
  with h v show ?thesis by blast
qed

section \<open>Downloading what is not there\<close>

lemma fs_get_None: "fs_get f s = None \<Longrightarrow> map_of f s = None"
  by (simp add: fs_get_def split: if_splits)

lemma mkdir_chain_keeps_files:
  "mkdir_chain f whole r pre xs = Inr f1
     \<Longrightarrow> (map_of f1 p = Some (File b)) = (map_of f p = Some (File b))"
proof (induction xs arbitrary: f pre)
  case Nil
  then show ?case by simp
next
  case (Cons x xs)
  define cur where "cur = str_path \<lparr> proot = r, parts = pre @ [x] \<rparr>"
  show ?case
  proof (cases "fs_get f cur")
    case None
    then have absent: "map_of f cur = None" by (rule fs_get_None)
    from Cons.prems None have "mkdir_chain (fs_put cur Dir f) whole r (pre @ [x]) xs = Inr f1"
      by (simp add: cur_def [symmetric] Let_def)
    from Cons.IH [OF this]
    have "(map_of f1 p = Some (File b)) = (map_of (fs_put cur Dir f) p = Some (File b))" .
    also have "\<dots> = (map_of f p = Some (File b))"
      using absent by (auto simp: map_of_fs_put)
    finally show ?thesis .
  next
    case (Some n)
    show ?thesis
    proof (cases n)
      case (File b')
      with Some Cons.prems show ?thesis by (simp add: cur_def [symmetric] Let_def)
    next
      case Dir
      with Some Cons.prems have "mkdir_chain f whole r (pre @ [x]) xs = Inr f1"
        by (simp add: cur_def [symmetric] Let_def)
      from Cons.IH [OF this] show ?thesis .
    qed
  qed
qed

lemma mkdir_parents_keeps_files:
  "mkdir_parents f P = Inr f1
     \<Longrightarrow> (map_of f1 p = Some (File b)) = (map_of f p = Some (File b))"
  unfolding mkdir_parents_def by (rule mkdir_chain_keeps_files)

text \<open>
  C5, as the code has it.  When the local check passes, the parent directories of
  \<^verbatim>\<open>local_path\<close> can be created and the library reports that the remote path does not
  exist, \<^verbatim>\<open>download_file\<close> returns the error record of a \<^verbatim>\<open>FileNotFoundError\<close>.  By
  then it has created the missing parent directories, and nothing else: the local
  file system is the one \<^verbatim>\<open>mkdir\<close> left, in which every regular file is as before, and
  the existence check is the only call made to the library.
\<close>

theorem download_missing_remote:
  assumes "\<not> (path_exists (local_fs w) (Path local_path) \<and> \<not> overwrite)"
    and "mkdir_parents (local_fs w) (parent (Path local_path)) = Inr f1"
    and "fst (smb_exists c (remote w) (full_remote_path svc remote_path)) = Inr False"
  shows "fst (download_body svc c w remote_path local_path overwrite)
           = Inl (Exn FileNotFoundError
                    (''Remote file not found: '' @ full_remote_path svc remote_path))
         \<and> fst (download_file svc c w remote_path local_path overwrite)
             = [(''status'', PStr ''error''),
                (''remote_path'', PStr remote_path),
                (''local_path'', PStr local_path),
                (''error'', PStr (''Remote file not found: ''
                                   @ full_remote_path svc remote_path))]
         \<and> local_fs (snd (download_file svc c w remote_path local_path overwrite)) = f1
         \<and> (\<forall>p b. (map_of f1 p = Some (File b)) = (map_of (local_fs w) p = Some (File b)))
         \<and> smb_calls (snd (download_file svc c w remote_path local_path overwrite))
             = smb_calls w @ [CallExists (full_remote_path svc remote_path)]"
proof -
  define full where "full = full_remote_path svc remote_path"
  obtain r1 where ex: "smb_exists c (remote w) full = (Inr False, r1)"
    using assms(3) by (cases "smb_exists c (remote w) full") (simp add: full_def)
  have body: "download_body svc c w remote_path local_path overwrite
                = (Inl (Exn FileNotFoundError (''Remote file not found: '' @ full)),
                   w\<lparr>local_fs := f1, remote := r1, smb_calls := smb_calls w @ [CallExists full]\<rparr>)"
    using assms(1,2) ex
    by (simp add: download_body_def Let_def full_def [symmetric] call_exists_def)
  have keep: "\<forall>p b. (map_of f1 p = Some (File b)) = (map_of (local_fs w) p = Some (File b))"
    using mkdir_parents_keeps_files [OF assms(2)] by blast
  show ?thesis
    using body keep
    by (simp add: download_file_def download_error_def full_def)
qed

theorem download_missing_remote_witness:
  "\<not> (path_exists (local_fs example_world) (Path ''out/b.bin'') \<and> \<not> False)
   \<and> mkdir_parents (local_fs example_world) (parent (Path ''out/b.bin''))
       = Inr [(''a.bin'', File [1, 2, 3]), (''out'', Dir)]
   \<and> fst (smb_exists faithful_share (remote example_world)
            (full_remote_path example_service ''nope.bin'')) = Inr False
   \<and> fst (download_body example_service faithful_share example_world
            ''nope.bin'' ''out/b.bin'' False)
       = Inl (Exn FileNotFoundError
                (''Remote file not found: '' @ full_remote_path example_service ''nope.bin''))
   \<and> local_fs (snd (download_file example_service faithful_share example_world
                       ''nope.bin'' ''out/b.bin'' False))
       = [(''a.bin'', File [1, 2, 3]), (''out'', Dir)]"
proof -
  have h1: "\<not> (path_exists (local_fs example_world) (Path ''out/b.bin'') \<and> \<not> False)"
    by code_simp
  have h2: "mkdir_parents (local_fs example_world) (parent (Path ''out/b.bin''))
              = Inr [(''a.bin'', File [1, 2, 3]), (''out'', Dir)]"
    by code_simp
  have h3: "fst (smb_exists faithful_share (remote example_world)
                   (full_remote_path example_service ''nope.bin'')) = Inr False"
    by code_simp
  show ?thesis
    using h1 h2 h3 download_missing_remote [OF h1 h2 h3] by simp
qed

text \<open>
  The download of a missing remote file into \<^verbatim>\<open>out/b.bin\<close> fails as it must, and
  leaves the new directory \<^verbatim>\<open>out\<close> behind.
\<close>

theorem download_missing_remote_counterexample:
  "fst (smb_exists faithful_share (remote example_world)
          (full_remote_path example_service ''nope.bin'')) = Inr False
   \<and> map_of (fst (download_file example_service faithful_share example_world
                     ''nope.bin'' ''out/b.bin'' False)) ''error''
       = Some (PStr ''Remote file not found: //srv/docs/nope.bin'')
   \<and> local_fs example_world = [(''a.bin'', File [1, 2, 3])]
   \<and> local_fs (snd (download_file example_service faithful_share example_world
                       ''nope.bin'' ''out/b.bin'' False))
       = [(''a.bin'', File [1, 2, 3]), (''out'', Dir)]
   \<and> local_fs (snd (download_file example_service faithful_share example_world
                       ''nope.bin'' ''out/b.bin'' False))
       \<noteq> local_fs example_world"
  by code_simp

section \<open>Uploads\<close>

lemma call_open_wb_local: "call_open_wb c w p = (res, w1) \<Longrightarrow> local_fs w1 = local_fs w"
  by (auto simp: call_open_wb_def split: prod.splits)

lemma call_write_local: "call_write c w p ch = (res, w1) \<Longrightarrow> local_fs w1 = local_fs w"
  by (auto simp: call_write_def split: prod.splits)

lemma close_remote_local: "close_remote c w p out = (res, w1) \<Longrightarrow> local_fs w1 = local_fs w"
  by (auto simp: close_remote_def call_close_def split: prod.splits sum.splits)

lemma call_write_fst: "fst (call_write c w p ch) = fst (smb_write c (remote w) p ch)"
  by (simp add: call_write_def split: prod.splits)

lemma call_open_wb_fst: "fst (call_open_wb c w p) = fst (smb_open_wb c (remote w) p)"
  by (simp add: call_open_wb_def split: prod.splits)

lemma call_close_fst: "fst (call_close c w p) = fst (smb_close c (remote w) p)"
  by (simp add: call_close_def split: prod.splits)

lemma drop_chunk_shorter:
  "take chunk_size rest \<noteq> [] \<Longrightarrow> length (drop chunk_size rest) < length rest"
  by (auto simp: chunk_size_def)

lemma upload_loop_local: "local_fs (snd (upload_loop c w full rest)) = local_fs w"
proof (induction "length rest" arbitrary: w rest rule: less_induct)
  case less
  show ?case
  proof (cases "take chunk_size rest = []")
    case True
    then show ?thesis by (simp add: upload_loop.simps [of c w full rest])
  next
    case False
    obtain res w1 where cw: "call_write c w full (take chunk_size rest) = (res, w1)"
      by (cases "call_write c w full (take chunk_size rest)")
    have l1: "local_fs w1 = local_fs w" using cw by (rule call_write_local)
    show ?thesis
    proof (cases res)
      case (Inl e)
      with False cw l1 show ?thesis by (simp add: upload_loop.simps [of c w full rest])
    next
      case (Inr u)
      have "local_fs (snd (upload_loop c w1 full (drop chunk_size rest))) = local_fs w1"
        by (rule less.hyps [OF drop_chunk_shorter [OF False]])
      with False cw Inr l1 show ?thesis by (simp add: upload_loop.simps [of c w full rest])
    qed
  qed
qed

lemma upload_loop_localD: "upload_loop c w full rest = (res, w1) \<Longrightarrow> local_fs w1 = local_fs w"
  using upload_loop_local [of c w full rest] by simp

lemma upload_loop_ok:
  assumes "\<forall>r p ch. fst (smb_write c r p ch) = Inr ()"
  shows "fst (upload_loop c w full rest) = Inr ()"
proof (induction "length rest" arbitrary: w rest rule: less_induct)
  case less
  show ?case
  proof (cases "take chunk_size rest = []")
    case True
    then show ?thesis by (simp add: upload_loop.simps [of c w full rest])
  next
    case False
    obtain res w1 where cw: "call_write c w full (take chunk_size rest) = (res, w1)"
      by (cases "call_write c w full (take chunk_size rest)")
    have "res = Inr ()"
      using cw assms call_write_fst [of c w full "take chunk_size rest"] by simp
    moreover have "fst (upload_loop c w1 full (drop chunk_size rest)) = Inr ()"
      by (rule less.hyps [OF drop_chunk_shorter [OF False]])
    ultimately show ?thesis
      using False cw by (simp add: upload_loop.simps [of c w full rest])
  qed
qed

lemma upload_transfer_result:
  assumes "fs_get (local_fs w1) (str_path lf) = Some (File b)"
    and "upload_transfer c w1 lf full = (Inr d, w5)"
  shows "d = upload_success lf full (length b) \<and> local_fs w5 = local_fs w1"
proof -
  have rb: "fs_open_rb (local_fs w1) lf = Inr b"
    using assms(1) by (simp add: fs_open_rb_def)
  obtain r2 w2 where o: "call_open_wb c w1 full = (r2, w2)"
    by (cases "call_open_wb c w1 full")
  have l2: "local_fs w2 = local_fs w1" using o by (rule call_open_wb_local)
  obtain r3 w3 where u: "upload_loop c w2 full b = (r3, w3)"
    by (cases "upload_loop c w2 full b")
  have l3: "local_fs w3 = local_fs w2" using u by (rule upload_loop_localD)
  obtain r4 w4 where cl: "close_remote c w3 full (Inr () :: exn + unit) = (r4, w4)"
    by (cases "close_remote c w3 full (Inr () :: exn + unit)")
  have l4: "local_fs w4 = local_fs w3" using cl by (rule close_remote_local)
  have st: "stat_size (local_fs w4) lf = Inr (length b)"
    using assms(1) l2 l3 l4 by (simp add: stat_size_def)
  show ?thesis
  proof (cases r2)
    case (Inl e)
    with assms(2) rb o show ?thesis by (simp add: upload_transfer_def)
  next
    case r2: (Inr u2)
    show ?thesis
    proof (cases r3)
      case (Inl e)
      with assms(2) rb o r2 u have "close_remote c w3 full (Inl e) = (Inr d, w5)"
        by (simp add: upload_transfer_def)
      from close_remote_Inr [OF this] show ?thesis by simp
    next
      case r3: (Inr u3)
      show ?thesis
      proof (cases r4)
        case (Inl e)
        with assms(2) rb o r2 u r3 cl show ?thesis by (simp add: upload_transfer_def)
      next
        case (Inr u4)
        with assms(2) rb o r2 u r3 cl st l2 l3 l4 show ?thesis
          by (simp add: upload_transfer_def)
      qed
    qed
  qed
qed

lemma upload_transfer_ok:
  assumes "fs_get (local_fs w1) (str_path lf) = Some (File b)"
    and "fst (smb_open_wb c (remote w1) full) = Inr ()"
    and "\<forall>r p ch. fst (smb_write c r p ch) = Inr ()"
    and "\<forall>r p. fst (smb_close c r p) = Inr ()"
  shows "fst (upload_transfer c w1 lf full) = Inr (upload_success lf full (length b))"
proof -
  have rb: "fs_open_rb (local_fs w1) lf = Inr b"
    using assms(1) by (simp add: fs_open_rb_def)
  obtain w2 where o: "call_open_wb c w1 full = (Inr (), w2)"
    using assms(2) call_open_wb_fst [of c w1 full]
    by (cases "call_open_wb c w1 full") simp
  have l2: "local_fs w2 = local_fs w1" using o by (rule call_open_wb_local)
  obtain w3 where u: "upload_loop c w2 full b = (Inr (), w3)"
    using upload_loop_ok [OF assms(3), of w2 full b]
    by (cases "upload_loop c w2 full b") simp
  have l3: "local_fs w3 = local_fs w2" using u by (rule upload_loop_localD)
  obtain w4 where cc: "call_close c w3 full = (Inr (), w4)"
    using assms(4) call_close_fst [of c w3 full]
    by (cases "call_close c w3 full") simp
  have cl: "close_remote c w3 full (Inr () :: exn + unit) = (Inr (), w4)"
    using cc by (simp add: close_remote_def)
  have l4: "local_fs w4 = local_fs w3" using cl by (rule close_remote_local)
  have st: "stat_size (local_fs w4) lf = Inr (length b)"
    using assms(1) l2 l3 l4 by (simp add: stat_size_def)
  show ?thesis
    using rb o u cl st by (simp add: upload_transfer_def)
qed

lemma ensure_remote_dir_Inr:
  "\<exists>w1. ensure_remote_dir c w p = (Inr (), w1) \<and> local_fs w1 = local_fs w"
  using ensure_remote_dir_never_raises [of c w p] ensure_remote_dir_local [of c w p]
  by (cases "ensure_remote_dir c w p") simp

lemma upload_body_result:
  assumes "fs_get (local_fs w) (str_path (Path lp)) = Some (File b)"
    and "upload_body svc c w lp rp cd = (Inr d, w5)"
  shows "d = upload_success (Path lp) (full_remote_path svc rp) (length b)
         \<and> local_fs w5 = local_fs w"
proof (cases cd)
  case False
  with assms upload_transfer_result [of w "Path lp" b c "full_remote_path svc rp" d w5]
  show ?thesis
    by (simp add: upload_body_def Let_def path_exists_def)
next
  case True
  obtain w1 where e: "ensure_remote_dir c w (str_path (parent (Path (full_remote_path svc rp))))
                        = (Inr (), w1)"
    and l1: "local_fs w1 = local_fs w"
    using ensure_remote_dir_Inr by blast
  from True assms e have "upload_transfer c w1 (Path lp) (full_remote_path svc rp) = (Inr d, w5)"
    by (simp add: upload_body_def Let_def path_exists_def)
  with upload_transfer_result [of w1 "Path lp" b c "full_remote_path svc rp" d w5] assms(1) l1
  show ?thesis by simp
qed

lemma upload_body_ok:
  assumes "fs_get (local_fs w) (str_path (Path lp)) = Some (File b)"
    and "\<forall>r p. fst (smb_open_wb c r p) = Inr ()"
    and "\<forall>r p ch. fst (smb_write c r p ch) = Inr ()"
    and "\<forall>r p. fst (smb_close c r p) = Inr ()"
  shows "fst (upload_body svc c w lp rp cd)
           = Inr (upload_success (Path lp) (full_remote_path svc rp) (length b))"
proof (cases cd)
  case False
  with assms(1) upload_transfer_ok [OF assms(1) assms(2) [rule_format] assms(3) assms(4)]
  show ?thesis
    by (simp add: upload_body_def Let_def path_exists_def)
next
  case True
  obtain w1 where e: "ensure_remote_dir c w (str_path (parent (Path (full_remote_path svc rp))))
                        = (Inr (), w1)"
    and l1: "local_fs w1 = local_fs w"
    using ensure_remote_dir_Inr by blast
  have f1: "fs_get (local_fs w1) (str_path (Path lp)) = Some (File b)"
    using assms(1) l1 by simp
  from True assms(1) e upload_transfer_ok [OF f1 assms(2) [rule_format] assms(3) assms(4)]
  show ?thesis
    by (simp add: upload_body_def Let_def path_exists_def)
qed

text \<open>
  C1, as the code has it.  Let the local path be a regular file of \<open>length b\<close> bytes.
  Whenever \<^verbatim>\<open>upload_file\<close> returns a success result, its \<^verbatim>\<open>size_bytes\<close> is that length
  and its \<^verbatim>\<open>remote_path\<close> is the share root \<^verbatim>\<open>//server/share\<close>, a slash, and
  \<^verbatim>\<open>remote_path\<close> without its leading slashes.  It returns that success result when
  opening, writing and closing the remote file do not raise; a failure of the
  directory creation does not matter.
\<close>

theorem upload_file_success_result:
  assumes "fs_get (local_fs w) (str_path (Path local_path)) = Some (File b)"
  shows "(map_of (fst (upload_file (SMBFileService_init cfg) c w local_path remote_path
                         create_dirs)) ''status'' = Some (PStr ''success'')
          \<longrightarrow> map_of (fst (upload_file (SMBFileService_init cfg) c w local_path remote_path
                              create_dirs)) ''size_bytes'' = Some (PInt (int (length b)))
            \<and> map_of (fst (upload_file (SMBFileService_init cfg) c w local_path remote_path
                              create_dirs)) ''remote_path''
                = Some (PStr (''//'' @ server cfg @ ''/'' @ share cfg @ ''/''
                               @ lstrip_slash remote_path)))
         \<and> ((\<forall>r p. fst (smb_open_wb c r p) = Inr ())
            \<and> (\<forall>r p ch. fst (smb_write c r p ch) = Inr ())
            \<and> (\<forall>r p. fst (smb_close c r p) = Inr ())
          \<longrightarrow> fst (upload_file (SMBFileService_init cfg) c w local_path remote_path create_dirs)
                = [(''status'', PStr ''success''),
                   (''local_path'', PStr (str_path (Path local_path))),
                   (''remote_path'', PStr (''//'' @ server cfg @ ''/'' @ share cfg @ ''/''
                                            @ lstrip_slash remote_path)),
                   (''size_bytes'', PInt (int (length b))),
                   (''message'', PStr ''File uploaded successfully'')])"
proof -
  define svc where "svc = SMBFileService_init cfg"
  define d where "d = fst (upload_file svc c w local_path remote_path create_dirs)"
  define good where
    "good = [(''status'', PStr ''success''),
             (''local_path'', PStr (str_path (Path local_path))),
             (''remote_path'', PStr (''//'' @ server cfg @ ''/'' @ share cfg @ ''/''
                                      @ lstrip_slash remote_path)),
             (''size_bytes'', PInt (int (length b))),
             (''message'', PStr ''File uploaded successfully'')]"
  have full: "full_remote_path svc remote_path
                = ''//'' @ server cfg @ ''/'' @ share cfg @ ''/'' @ lstrip_slash remote_path"
    by (simp add: full_remote_path_def svc_def SMBFileService_init_def)
  have good_eq: "upload_success (Path local_path) (full_remote_path svc remote_path) (length b)
                   = good"
    by (simp only: full upload_success_def good_def)
  obtain res w5 where body: "upload_body svc c w local_path remote_path create_dirs = (res, w5)"
    by (cases "upload_body svc c w local_path remote_path create_dirs")
  have first: "d = good" if st: "map_of d ''status'' = Some (PStr ''success'')"
  proof (cases res)
    case (Inl e)
    with body have "d = upload_error local_path remote_path e"
      by (simp add: d_def upload_file_def)
    with st show ?thesis by (simp add: upload_error_def)
  next
    case (Inr d')
    with body have "d = d'" by (simp add: d_def upload_file_def)
    moreover from Inr body upload_body_result [OF assms, of svc c remote_path create_dirs d' w5]
    have "d' = upload_success (Path local_path) (full_remote_path svc remote_path) (length b)"
      by simp
    ultimately show ?thesis using good_eq by simp
  qed
  have second: "d = good"
    if a: "\<forall>r p. fst (smb_open_wb c r p) = Inr ()"
      and b: "\<forall>r p ch. fst (smb_write c r p ch) = Inr ()"
      and c: "\<forall>r p. fst (smb_close c r p) = Inr ()"
  proof -
    from upload_body_ok [OF assms a b c, of svc remote_path create_dirs] body
    have "res = Inr (upload_success (Path local_path) (full_remote_path svc remote_path)
                       (length b))"
      by simp
    with body good_eq show ?thesis by (simp add: d_def upload_file_def)
  qed
  have size: "map_of good ''size_bytes'' = Some (PInt (int (length b)))"
    by (simp add: good_def)
  have rp: "map_of good ''remote_path''
              = Some (PStr (''//'' @ server cfg @ ''/'' @ share cfg @ ''/''
                             @ lstrip_slash remote_path))"
    by (simp add: good_def)
  have "(map_of d ''status'' = Some (PStr ''success'')
          \<longrightarrow> map_of d ''size_bytes'' = Some (PInt (int (length b)))
            \<and> map_of d ''remote_path''
                = Some (PStr (''//'' @ server cfg @ ''/'' @ share cfg @ ''/''
                               @ lstrip_slash remote_path)))
         \<and> ((\<forall>r p. fst (smb_open_wb c r p) = Inr ())
            \<and> (\<forall>r p ch. fst (smb_write c r p ch) = Inr ())
            \<and> (\<forall>r p. fst (smb_close c r p) = Inr ())
          \<longrightarrow> d = good)"
    using first second size rp by metis
  then show ?thesis
    by (simp only: d_def svc_def good_def)
qed


theorem upload_file_success_result_witness:
  "fs_get (local_fs offline_world) (str_path (Path ''a.bin'')) = Some (File [1, 2, 3])
   \<and> (\<forall>r p. fst (smb_open_wb accepting_share r p) = Inr ())
   \<and> (\<forall>r p ch. fst (smb_write accepting_share r p ch) = Inr ())
   \<and> (\<forall>r p. fst (smb_close accepting_share r p) = Inr ())
   \<and> fst (upload_file (SMBFileService_init example_config) accepting_share offline_world
            ''a.bin'' ''//y.bin'' False)
       = [(''status'', PStr ''success''),
          (''local_path'', PStr ''a.bin''),
          (''remote_path'', PStr ''//srv/docs/y.bin''),
          (''size_bytes'', PInt 3),
          (''message'', PStr ''File uploaded successfully'')]
   \<and> map_of (fst (upload_file (SMBFileService_init example_config) accepting_share offline_world
                     ''a.bin'' ''//y.bin'' False)) ''status'' = Some (PStr ''success'')
   \<and> map_of (fst (upload_file (SMBFileService_init example_config) accepting_share offline_world
                     ''a.bin'' ''//y.bin'' False)) ''size_bytes'' = Some (PInt 3)
   \<and> map_of (fst (upload_file (SMBFileService_init example_config) accepting_share offline_world
                     ''a.bin'' ''//y.bin'' False)) ''remote_path''
       = Some (PStr ''//srv/docs/y.bin'')"
proof -
  have h: "fs_get (local_fs offline_world) (str_path (Path ''a.bin'')) = Some (File [1, 2, 3])"
    by code_simp
  have n2: "''//'' @ server example_config @ ''/'' @ share example_config @ ''/''
              @ lstrip_slash ''//y.bin'' = ''//srv/docs/y.bin''"
    by code_simp
  have n3: "str_path (Path ''a.bin'') = ''a.bin''"
    by code_simp
  have a1: "\<forall>r p. fst (smb_open_wb accepting_share r p) = Inr ()"
    by (simp add: accepting_share_def)
  have a2: "\<forall>r p ch. fst (smb_write accepting_share r p ch) = Inr ()"
    by (simp add: accepting_share_def)
  have a3: "\<forall>r p. fst (smb_close accepting_share r p) = Inr ()"
    by (simp add: accepting_share_def)
  note second = upload_file_success_result
                  [OF h, of example_config accepting_share "''//y.bin''" False,
                   THEN conjunct2, rule_format, OF conjI [OF a1 conjI [OF a2 a3]]]
  have st: "map_of (fst (upload_file (SMBFileService_init example_config) accepting_share
                           offline_world ''a.bin'' ''//y.bin'' False)) ''status''
              = Some (PStr ''success'')"
    by (simp only: second) simp
  note first = upload_file_success_result
                 [OF h, of example_config accepting_share "''//y.bin''" False,
                  THEN conjunct1, rule_format, OF st]
  show ?thesis
    using h st first second a1 a2 a3 n2 n3 by simp
qed

text \<open>
  The file exists and has three bytes, but the server cannot be reached: the result
  is an error result.
\<close>

theorem upload_file_always_success_counterexample:
  "fs_get (local_fs offline_world) (str_path (Path ''a.bin'')) = Some (File [1, 2, 3])
   \<and> fst (upload_file example_service unreachable_share offline_world ''a.bin'' ''y.bin'' True)
       = [(''status'', PStr ''error''),
          (''local_path'', PStr ''a.bin''),
          (''remote_path'', PStr ''y.bin''),
          (''error'', PStr ''connection lost'')]
   \<and> map_of (fst (upload_file example_service unreachable_share offline_world
                     ''a.bin'' ''y.bin'' True)) ''status'' \<noteq> Some (PStr ''success'')"
  by code_simp

section \<open>Configuration loading\<close>

text \<open>
  From the environment: a configuration that is returned has its four required
  fields non-empty, and an environment in which one of them is missing or empty (with
  readable port and timeout) is refused with the \<^verbatim>\<open>ValueError\<close> that names the four
  variables.
\<close>

lemma load_config_from_env_nonempty:
  "load_config_from_env py_int environ = Inr cfg
     \<Longrightarrow> server cfg \<noteq> [] \<and> share cfg \<noteq> [] \<and> username cfg \<noteq> [] \<and> password cfg \<noteq> []"
  by (auto simp: load_config_from_env_def Let_def split: sum.splits if_splits)

lemma load_config_from_env_missing:
  assumes "getenv environ ''SMB_SERVER'' [] = [] \<or> getenv environ ''SMB_SHARE'' [] = []
           \<or> getenv environ ''SMB_USERNAME'' [] = [] \<or> getenv environ ''SMB_PASSWORD'' [] = []"
    and "py_int (getenv environ ''SMB_PORT'' ''445'') = Inr p"
    and "py_int (getenv environ ''SMB_TIMEOUT'' ''30'') = Inr t"
  shows "load_config_from_env py_int environ
           = Inl (Exn ValueError
  ''Missing required environment variables: SMB_SERVER, SMB_SHARE, SMB_USERNAME, SMB_PASSWORD'')"
  using assms by (auto simp: load_config_from_env_def Let_def)

lemma load_config_from_env_fails:
  assumes "getenv environ ''SMB_SERVER'' [] = [] \<or> getenv environ ''SMB_SHARE'' [] = []
           \<or> getenv environ ''SMB_USERNAME'' [] = [] \<or> getenv environ ''SMB_PASSWORD'' [] = []"
  shows "\<exists>e. load_config_from_env py_int environ = Inl e"
  using assms by (auto simp: load_config_from_env_def Let_def split: sum.splits)

lemma load_config_from_env_example:
  "load_config_from_env dec_int
     [(''SMB_SERVER'', ''srv''), (''SMB_SHARE'', []), (''SMB_USERNAME'', ''u''),
      (''SMB_PASSWORD'', ''p'')]
     = Inl (Exn ValueError
  ''Missing required environment variables: SMB_SERVER, SMB_SHARE, SMB_USERNAME, SMB_PASSWORD'')
   \<and> load_config_from_env dec_int
       [(''SMB_SERVER'', ''srv''), (''SMB_SHARE'', ''docs''), (''SMB_USERNAME'', ''u''),
        (''SMB_PASSWORD'', ''p''), (''SMB_PORT'', ''1445'')]
       = Inr (example_config\<lparr>port := 1445\<rparr>)"
  by code_simp

text \<open>
  From a file: a missing required key is refused by the constructor with a
  \<^verbatim>\<open>TypeError\<close>.
\<close>

lemma load_config_from_file_missing_key:
  assumes "k \<in> set SMBConfig_required" and "k \<notin> set (map fst kvs)"
  shows "\<exists>m. load_config_from_file (Inr (PDict kvs)) = Some (Inl (Exn TypeError m))"
proof (cases "filter (\<lambda>k. k \<notin> set SMBConfig_fields) (map fst kvs)")
  case (Cons a as)
  then show ?thesis by (simp add: load_config_from_file_def SMBConfig_kwargs_def)
next
  case Nil
  from assms have "k \<in> set (filter (\<lambda>k. k \<notin> set (map fst kvs)) SMBConfig_required)"
    by simp
  then have "filter (\<lambda>k. k \<notin> set (map fst kvs)) SMBConfig_required \<noteq> []"
    by (metis empty_iff empty_set)
  then obtain m ms where "filter (\<lambda>k. k \<notin> set (map fst kvs)) SMBConfig_required = m # ms"
    by (cases "filter (\<lambda>k. k \<notin> set (map fst kvs)) SMBConfig_required") simp_all
  with Nil show ?thesis by (simp add: load_config_from_file_def SMBConfig_kwargs_def)
qed

text \<open>
  C8.  The claim asks that loading fails when one of server, share, username and
  password is missing or empty, from the environment and from a file.  From a file
  whose \<^verbatim>\<open>server\<close> is the empty string, \<^verbatim>\<open>load_config_from_file\<close> returns a
  configuration with an empty server: the check that \<^verbatim>\<open>load_config_from_env\<close> makes
  after the construction is not made here.
\<close>

theorem load_config_from_file_accepts_empty_server:
  "load_config_from_file
     (Inr (PDict [(''server'', PStr []), (''share'', PStr ''docs''),
                  (''username'', PStr ''u''), (''password'', PStr ''p'')]))
     = Some (Inr \<lparr> server = [], share = ''docs'', username = ''u'', password = ''p'',
                    domain = [], port = 445, require_signing = True, encrypt = False,
                    timeout = 30 \<rparr>)"
  by code_simp

section \<open>Round trip\<close>

lemma call_write_faithful:
  "call_write faithful_share w p ch
     = (Inr (), w\<lparr>remote := fs_append (remote w) (Path p) ch,
                    smb_calls := smb_calls w @ [CallWrite p ch]\<rparr>)"
  by (simp add: call_write_def faithful_share_def)

lemma close_remote_faithful:
  "close_remote faithful_share w p out = (out, w\<lparr>smb_calls := smb_calls w @ [CallClose p]\<rparr>)"
  by (simp add: close_remote_def call_close_def faithful_share_def)

lemma fs_append_content:
  "map_of f (str_path P) = Some (File old)
     \<Longrightarrow> map_of (fs_append f P ch) (str_path P) = Some (File (old @ ch))"
  by (simp add: fs_append_def map_of_fs_put)

lemma upload_loop_faithful:
  assumes "map_of (remote w) (str_path (Path full)) = Some (File old)"
  shows "fst (upload_loop faithful_share w full rest) = Inr ()
         \<and> map_of (remote (snd (upload_loop faithful_share w full rest))) (str_path (Path full))
             = Some (File (old @ rest))"
  using assms
proof (induction "length rest" arbitrary: w rest old rule: less_induct)
  case less
  show ?case
  proof (cases "take chunk_size rest = []")
    case True
    then have "rest = []" by (auto simp: chunk_size_def)
    with less.prems show ?thesis
      by (simp add: upload_loop.simps [of faithful_share w full "[]"])
  next
    case False
    define w1 where "w1 = w\<lparr>remote := fs_append (remote w) (Path full) (take chunk_size rest),
                   smb_calls := smb_calls w @ [CallWrite full (take chunk_size rest)]\<rparr>"
    have c1: "map_of (remote w1) (str_path (Path full))
                = Some (File (old @ take chunk_size rest))"
      using less.prems by (simp add: w1_def fs_append_content)
    have step: "upload_loop faithful_share w full rest
                  = upload_loop faithful_share w1 full (drop chunk_size rest)"
      using False
      by (simp add: upload_loop.simps [of faithful_share w full rest] call_write_faithful w1_def
          Let_def)
    from less.hyps [OF drop_chunk_shorter [OF False] c1]
    show ?thesis
      unfolding step by simp
  qed
qed

lemma call_open_wb_faithful:
  assumes "call_open_wb faithful_share w full = (Inr u, w2)"
  shows "map_of (remote w2) (str_path (Path full)) = Some (File [])
         \<and> fs_get (remote w2) (str_path (Path full)) = Some (File [])
         \<and> local_fs w2 = local_fs w"
  using assms
  by (auto simp: call_open_wb_def faithful_share_def share_open_wb_def fs_open_wb_def
      fs_get_def map_of_fs_put
      split: sum.splits option.splits node.splits if_splits)

lemma upload_transfer_faithful:
  assumes "fs_get (local_fs w1) (str_path lf) = Some (File b)"
    and "upload_transfer faithful_share w1 lf full = (Inr d, w5)"
  shows "fs_get (remote w5) (str_path (Path full)) = Some (File b)"
proof -
  have rb: "fs_open_rb (local_fs w1) lf = Inr b"
    using assms(1) by (simp add: fs_open_rb_def)
  obtain r2 w2 where o: "call_open_wb faithful_share w1 full = (r2, w2)"
    by (cases "call_open_wb faithful_share w1 full")
  show ?thesis
  proof (cases r2)
    case (Inl e)
    with assms(2) rb o show ?thesis by (simp add: upload_transfer_def)
  next
    case (Inr u2)
    with o have o': "call_open_wb faithful_share w1 full = (Inr u2, w2)" by simp
    note opened = call_open_wb_faithful [OF o']
    define w3 where "w3 = snd (upload_loop faithful_share w2 full b)"
    have loop: "upload_loop faithful_share w2 full b = (Inr (), w3)"
      and c3: "map_of (remote w3) (str_path (Path full)) = Some (File b)"
      using upload_loop_faithful [of w2 full "[]" b] opened
      by (simp_all add: w3_def prod_eq_iff)
    have l3: "local_fs w3 = local_fs w1"
      using upload_loop_localD [OF loop] opened by simp
    have st: "stat_size (local_fs w3) lf = Inr (length b)"
      using assms(1) l3 by (simp add: stat_size_def)
    have w5: "w5 = w3\<lparr>smb_calls := smb_calls w3 @ [CallClose full]\<rparr>"
      using assms(2) rb o' loop st
      by (simp add: upload_transfer_def close_remote_faithful)
    have special: "fs_get (remote w2) (str_path (Path full)) = Some (File [])"
      using opened by simp
    then have "str_path (Path full) \<noteq> ''.'' \<and> str_path (Path full) \<noteq> ''/''
               \<and> str_path (Path full) \<noteq> ''//''"
      by (auto simp: fs_get_def split: if_splits)
    then show ?thesis
      using c3 w5 by (simp add: fs_get_def)
  qed
qed

lemma upload_body_faithful:
  assumes "fs_get (local_fs w) (str_path (Path lp)) = Some (File b)"
    and "upload_body svc faithful_share w lp rp cd = (Inr d, w5)"
  shows "fs_get (remote w5) (str_path (Path (full_remote_path svc rp))) = Some (File b)"
proof (cases cd)
  case False
  with assms upload_transfer_faithful [of w "Path lp" b "full_remote_path svc rp" d w5]
  show ?thesis
    by (simp add: upload_body_def Let_def path_exists_def)
next
  case True
  obtain w1 where e: "ensure_remote_dir faithful_share w
                        (str_path (parent (Path (full_remote_path svc rp)))) = (Inr (), w1)"
    and l1: "local_fs w1 = local_fs w"
    using ensure_remote_dir_Inr by blast
  from True assms e
  have "upload_transfer faithful_share w1 (Path lp) (full_remote_path svc rp) = (Inr d, w5)"
    by (simp add: upload_body_def Let_def path_exists_def)
  with upload_transfer_faithful [of w1 "Path lp" b "full_remote_path svc rp" d w5] assms(1) l1
  show ?thesis by simp
qed

lemma download_loop_chunks:
  assumes "0 < n" and "map_of (local_fs w) (str_path lf) = Some (File old)"
  shows "fst (download_loop w full lf (map Inr (chunks_of n b)) t) = Inr (t + length b)
         \<and> map_of (local_fs (snd (download_loop w full lf (map Inr (chunks_of n b)) t)))
              (str_path lf) = Some (File (old @ b))"
  using assms(2)
proof (induction "length b" arbitrary: w b old t rule: less_induct)
  case less
  show ?case
  proof (cases "b = []")
    case True
    with less.prems show ?thesis
      by (simp add: chunks_of.simps [of n "[]"])
  next
    case False
    have ch: "chunks_of n b = take n b # chunks_of n (drop n b)"
      using False assms(1) by (simp add: chunks_of.simps [of n b])
    have ne: "take n b \<noteq> []" using False assms(1) by auto
    have shorter: "length (drop n b) < length b" using False assms(1) by auto
    define w1 where
      "w1 = w\<lparr>smb_calls := smb_calls w @ [CallRead full chunk_size],
               local_fs := fs_append (local_fs w) lf (take n b)\<rparr>"
    have c1: "map_of (local_fs w1) (str_path lf) = Some (File (old @ take n b))"
      using less.prems by (simp add: w1_def fs_append_content)
    have step: "download_loop w full lf (map Inr (chunks_of n b)) t
                  = download_loop w1 full lf (map Inr (chunks_of n (drop n b)))
                      (t + length (take n b))"
      using ne by (simp add: ch w1_def Let_def)
    have len: "t + length (take n b) + length (drop n b) = t + length b"
      by (metis add.assoc append_take_drop_id length_append)
    from less.hyps [OF shorter c1, of "t + length (take n b)"]
    show ?thesis
      unfolding step using len by simp
  qed
qed

lemma fs_open_wb_content:
  assumes "fs_open_wb f P = Inr f2"
  shows "map_of f2 (str_path P) = Some (File [])
         \<and> str_path P \<noteq> ''.'' \<and> str_path P \<noteq> ''/'' \<and> str_path P \<noteq> ''//''"
  using assms
  by (auto simp: fs_open_wb_def fs_get_def map_of_fs_put
      split: sum.splits option.splits node.splits if_splits)

lemma download_body_faithful:
  assumes "fs_get (remote w) (str_path (Path (full_remote_path svc rp))) = Some (File b)"
    and "download_body svc faithful_share w rp lp ow = (Inr d, w5)"
  shows "d = download_success (full_remote_path svc rp) (Path lp) (length b)
         \<and> fs_get (local_fs w5) (str_path (Path lp)) = Some (File b)"
proof -
  define full where "full = full_remote_path svc rp"
  define lf where "lf = Path lp"
  have guard: "\<not> (path_exists (local_fs w) lf \<and> \<not> ow)"
  proof
    assume "path_exists (local_fs w) lf \<and> \<not> ow"
    then have "fst (download_body svc faithful_share w rp lp ow)
                 = Inl (Exn FileExistsError (''Local file exists and overwrite=False: '' @ lp))"
      by (simp add: download_body_def lf_def)
    with assms(2) show False by simp
  qed
  from guard have g: "(path_exists (local_fs w) lf \<and> \<not> ow) = False" by simp
  obtain f1 where mk: "mkdir_parents (local_fs w) (parent lf) = Inr f1"
  proof (cases "mkdir_parents (local_fs w) (parent lf)")
    case (Inl e)
    then have "fst (download_body svc faithful_share w rp lp ow) = Inl e"
      by (simp add: download_body_def lf_def [symmetric] Let_def g)
    with assms(2) show ?thesis by simp
  next
    case (Inr f1)
    then show ?thesis by (rule that)
  qed
  define w2 where "w2 = w\<lparr>local_fs := f1, smb_calls := smb_calls w @ [CallExists full]\<rparr>"
  have ex: "call_exists faithful_share (w\<lparr>local_fs := f1\<rparr>) full = (Inr True, w2)"
    using assms(1)
    by (simp add: call_exists_def faithful_share_def path_exists_def full_def w2_def)
  define w3 where "w3 = w2\<lparr>smb_calls := smb_calls w2 @ [CallOpenRb full]\<rparr>"
  have rb: "call_open_rb faithful_share w2 full = (Inr (map Inr (chunks_of chunk_size b)), w3)"
    using assms(1)
    by (simp add: call_open_rb_def faithful_share_def share_open_rb_def fs_open_rb_def
        full_def w2_def w3_def)
  have l3: "local_fs w3 = f1" by (simp add: w3_def w2_def)
  have body: "download_body svc faithful_share w rp lp ow
                = (case fs_open_wb f1 lf of
                     Inl e \<Rightarrow> close_remote faithful_share w3 full (Inl e)
                   | Inr f2 \<Rightarrow>
                      (case download_loop (w3\<lparr>local_fs := f2\<rparr>) full lf
                              (map Inr (chunks_of chunk_size b)) 0 of
                         (Inl e, w4) \<Rightarrow> close_remote faithful_share w4 full (Inl e)
                       | (Inr total_size, w4) \<Rightarrow>
                           close_remote faithful_share w4 full
                             (Inr (download_success full lf total_size))))"
    using mk ex rb l3
    by (simp add: download_body_def Let_def lf_def [symmetric] full_def [symmetric] g)
  obtain f2 where ow: "fs_open_wb f1 lf = Inr f2"
    using assms(2) body
    by (cases "fs_open_wb f1 lf") (auto simp: close_remote_faithful)
  note opened = fs_open_wb_content [OF ow]
  define w3' where "w3' = w3\<lparr>local_fs := f2\<rparr>"
  define w4 where "w4 = snd (download_loop w3' full lf (map Inr (chunks_of chunk_size b)) 0)"
  have start: "map_of (local_fs w3') (str_path lf) = Some (File [])"
    using opened by (simp add: w3'_def)
  have pos: "0 < chunk_size" by (simp add: chunk_size_def)
  have loop: "download_loop w3' full lf (map Inr (chunks_of chunk_size b)) 0
                = (Inr (length b), w4)"
    and c4: "map_of (local_fs w4) (str_path lf) = Some (File b)"
    using download_loop_chunks [OF pos start, of full b 0]
    by (simp_all add: w4_def prod_eq_iff)
  have res: "download_body svc faithful_share w rp lp ow
               = (Inr (download_success full lf (length b)),
                  w4\<lparr>smb_calls := smb_calls w4 @ [CallClose full]\<rparr>)"
    using body ow loop by (simp add: w3'_def close_remote_faithful)
  with assms(2) have d: "d = download_success full lf (length b)"
    and w5: "w5 = w4\<lparr>smb_calls := smb_calls w4 @ [CallClose full]\<rparr>"
    by simp_all
  have "fs_get (local_fs w5) (str_path lf) = Some (File b)"
    using c4 w5 opened by (simp add: fs_get_def)
  with d show ?thesis by (simp add: full_def lf_def)
qed

lemma upload_transfer_local: "local_fs (snd (upload_transfer c w lf full)) = local_fs w"
proof (cases "fs_open_rb (local_fs w) lf")
  case (Inl e)
  then show ?thesis by (simp add: upload_transfer_def)
next
  case (Inr b)
  obtain r2 w2 where o: "call_open_wb c w full = (r2, w2)"
    by (cases "call_open_wb c w full")
  have l2: "local_fs w2 = local_fs w" using o by (rule call_open_wb_local)
  obtain r3 w3 where u: "upload_loop c w2 full b = (r3, w3)"
    by (cases "upload_loop c w2 full b")
  have l3: "local_fs w3 = local_fs w2" using u by (rule upload_loop_localD)
  obtain r4 w4 where cl: "close_remote c w3 full (Inr () :: exn + unit) = (r4, w4)"
    by (cases "close_remote c w3 full (Inr () :: exn + unit)")
  have l4: "local_fs w4 = local_fs w3" using cl by (rule close_remote_local)
  show ?thesis
  proof (cases r2)
    case (Inl e)
    with Inr o l2 show ?thesis by (simp add: upload_transfer_def)
  next
    case r2: (Inr u2)
    show ?thesis
    proof (cases r3)
      case (Inl e)
      obtain r5 w5 where c5: "close_remote c w3 full (Inl e :: exn + pydict) = (r5, w5)"
        by (cases "close_remote c w3 full (Inl e :: exn + pydict)")
      have "local_fs w5 = local_fs w3" using c5 by (rule close_remote_local)
      with Inl Inr o r2 u c5 l2 l3 show ?thesis by (simp add: upload_transfer_def)
    next
      case r3: (Inr u3)
      with Inr o r2 u cl l2 l3 l4 show ?thesis
        by (cases r4) (simp_all add: upload_transfer_def split: sum.splits)
    qed
  qed
qed

lemma upload_file_local: "local_fs (snd (upload_file svc c w lp rp cd)) = local_fs w"
proof -
  have body: "local_fs (snd (upload_body svc c w lp rp cd)) = local_fs w"
  proof (cases "cd \<and> path_exists (local_fs w) (Path lp)")
    case True
    obtain w1 where e: "ensure_remote_dir c w (str_path (parent (Path (full_remote_path svc rp))))
                          = (Inr (), w1)"
      and l1: "local_fs w1 = local_fs w"
      using ensure_remote_dir_Inr by blast
    from True e l1 upload_transfer_local [of c w1 "Path lp" "full_remote_path svc rp"]
    show ?thesis by (simp add: upload_body_def Let_def)
  next
    case False
    with upload_transfer_local [of c w "Path lp" "full_remote_path svc rp"]
    show ?thesis by (auto simp: upload_body_def Let_def)
  qed
  then show ?thesis
    by (cases "upload_body svc c w lp rp cd")
       (simp add: upload_file_def split: sum.splits)
qed

lemma upload_success_body:
  assumes "upload_file svc c w lp rp cd = (d1, w1)"
    and "map_of d1 ''status'' = Some (PStr ''success'')"
  shows "upload_body svc c w lp rp cd = (Inr d1, w1)"
proof (cases "upload_body svc c w lp rp cd")
  case (Pair res w')
  show ?thesis
  proof (cases res)
    case (Inl e)
    with Pair assms show ?thesis by (auto simp: upload_file_def upload_error_def)
  next
    case (Inr d)
    with Pair assms(1) show ?thesis by (simp add: upload_file_def)
  qed
qed

lemma download_success_body:
  assumes "download_file svc c w rp lp ow = (d2, w2)"
    and "map_of d2 ''status'' = Some (PStr ''success'')"
  shows "download_body svc c w rp lp ow = (Inr d2, w2)"
proof (cases "download_body svc c w rp lp ow")
  case (Pair res w')
  show ?thesis
  proof (cases res)
    case (Inl e)
    with Pair assms show ?thesis by (auto simp: download_file_def download_error_def)
  next
    case (Inr d)
    with Pair assms(1) show ?thesis by (simp add: download_file_def)
  qed
qed

lemma upload_file_faithful_ok:
  assumes "fs_get (local_fs w) (str_path (Path lp)) = Some (File b)"
    and "fst (smb_open_wb faithful_share
               (remote (if cd
                        then snd (ensure_remote_dir faithful_share w
                                    (str_path (parent (Path (full_remote_path svc rp)))))
                        else w))
               (full_remote_path svc rp)) = Inr ()"
  shows "fst (upload_file svc faithful_share w lp rp cd)
           = upload_success (Path lp) (full_remote_path svc rp) (length b)"
proof -
  have wr: "\<forall>r p ch. fst (smb_write faithful_share r p ch) = Inr ()"
    by (simp add: faithful_share_def)
  have cl: "\<forall>r p. fst (smb_close faithful_share r p) = Inr ()"
    by (simp add: faithful_share_def)
  have "fst (upload_body svc faithful_share w lp rp cd)
          = Inr (upload_success (Path lp) (full_remote_path svc rp) (length b))"
  proof (cases cd)
    case False
    with assms upload_transfer_ok [OF assms(1) _ wr cl, of "full_remote_path svc rp"]
    show ?thesis
      by (simp add: upload_body_def Let_def path_exists_def)
  next
    case True
    obtain w1 where e: "ensure_remote_dir faithful_share w
                          (str_path (parent (Path (full_remote_path svc rp)))) = (Inr (), w1)"
      and l1: "local_fs w1 = local_fs w"
      using ensure_remote_dir_Inr by blast
    have f1: "fs_get (local_fs w1) (str_path (Path lp)) = Some (File b)"
      using assms(1) l1 by simp
    have o: "fst (smb_open_wb faithful_share (remote w1) (full_remote_path svc rp)) = Inr ()"
      using assms(2) True e by simp
    from True assms(1) e upload_transfer_ok [OF f1 o wr cl]
    show ?thesis
      by (simp add: upload_body_def Let_def path_exists_def)
  qed
  then show ?thesis
    by (cases "upload_body svc faithful_share w lp rp cd") (simp add: upload_file_def)
qed

lemma download_file_faithful_ok:
  assumes "fs_get (remote w) (str_path (Path (full_remote_path svc rp))) = Some (File b)"
    and "\<not> (path_exists (local_fs w) (Path lp) \<and> \<not> ow)"
    and "mkdir_parents (local_fs w) (parent (Path lp)) = Inr f1"
    and "fs_open_wb f1 (Path lp) = Inr f2"
  shows "fst (download_file svc faithful_share w rp lp ow)
           = download_success (full_remote_path svc rp) (Path lp) (length b)"
proof -
  define full where "full = full_remote_path svc rp"
  define lf where "lf = Path lp"
  from assms(2) have g: "(path_exists (local_fs w) lf \<and> \<not> ow) = False"
    by (simp add: lf_def)
  have mk: "mkdir_parents (local_fs w) (parent lf) = Inr f1"
    using assms(3) by (simp add: lf_def)
  define w2 where "w2 = w\<lparr>local_fs := f1, smb_calls := smb_calls w @ [CallExists full]\<rparr>"
  have ex: "call_exists faithful_share (w\<lparr>local_fs := f1\<rparr>) full = (Inr True, w2)"
    using assms(1)
    by (simp add: call_exists_def faithful_share_def path_exists_def full_def w2_def)
  define w3 where "w3 = w2\<lparr>smb_calls := smb_calls w2 @ [CallOpenRb full]\<rparr>"
  have rb: "call_open_rb faithful_share w2 full = (Inr (map Inr (chunks_of chunk_size b)), w3)"
    using assms(1)
    by (simp add: call_open_rb_def faithful_share_def share_open_rb_def fs_open_rb_def
        full_def w2_def w3_def)
  have l3: "local_fs w3 = f1" by (simp add: w3_def w2_def)
  have ow: "fs_open_wb f1 lf = Inr f2" using assms(4) by (simp add: lf_def)
  note opened = fs_open_wb_content [OF ow]
  define w3' where "w3' = w3\<lparr>local_fs := f2\<rparr>"
  have start: "map_of (local_fs w3') (str_path lf) = Some (File [])"
    using opened by (simp add: w3'_def)
  have pos: "0 < chunk_size" by (simp add: chunk_size_def)
  obtain w4 where loop: "download_loop w3' full lf (map Inr (chunks_of chunk_size b)) 0
                           = (Inr (length b), w4)"
    using download_loop_chunks [OF pos start, of full b 0]
    by (cases "download_loop w3' full lf (map Inr (chunks_of chunk_size b)) 0") simp
  have "download_body svc faithful_share w rp lp ow
          = (Inr (download_success full lf (length b)),
             w4\<lparr>smb_calls := smb_calls w4 @ [CallClose full]\<rparr>)"
    using mk ex rb l3 ow loop
    by (simp add: download_body_def Let_def lf_def [symmetric] full_def [symmetric] g
        w3'_def [symmetric] close_remote_faithful)
  then show ?thesis
    by (simp add: download_file_def full_def lf_def)
qed

text \<open>
  A destination that does not exist can be opened for writing once its parent
  directories have been created.
\<close>

lemma join_with_append:
  "xs \<noteq> [] \<Longrightarrow> ys \<noteq> [] \<Longrightarrow>
   join_with sep (xs @ ys) = join_with sep xs @ sep @ join_with sep ys"
proof (induction xs rule: join_with.induct[of _ sep])
  case (1 sep')
  then show ?case by simp
next
  case (2 sep' x)
  then show ?case by (cases ys) simp_all
next
  case (3 sep' x y ys')
  then show ?case by simp
qed

lemma join_with_take_shorter:
  assumes "0 < j" and "j < length ps"
  shows "length (join_with ''/'' (take j ps)) < length (join_with ''/'' ps)"
proof -
  have a: "take j ps \<noteq> []" and b: "drop j ps \<noteq> []" using assms by auto
  have "join_with ''/'' ps = join_with ''/'' (take j ps @ drop j ps)" by simp
  also have "\<dots> = join_with ''/'' (take j ps) @ ''/'' @ join_with ''/'' (drop j ps)"
    by (rule join_with_append [OF a b])
  finally show ?thesis by simp
qed

lemma str_path_prefix_neq:
  assumes "0 < j" and "j < length ps"
  shows "str_path \<lparr> proot = r, parts = take j ps \<rparr> \<noteq> str_path \<lparr> proot = r, parts = ps \<rparr>"
proof -
  have a: "take j ps \<noteq> []" and b: "ps \<noteq> []" using assms by auto
  show ?thesis
    using join_with_take_shorter [OF assms] a b
    by (auto simp: str_path_def)
qed

lemma mkdir_chain_other:
  assumes "mkdir_chain f whole r pre xs = Inr f1"
    and "\<forall>i < length xs. k \<noteq> str_path \<lparr> proot = r, parts = pre @ take (Suc i) xs \<rparr>"
  shows "map_of f1 k = map_of f k"
  using assms
proof (induction xs arbitrary: f pre)
  case Nil
  then show ?case by simp
next
  case (Cons x xs)
  define cur where "cur = str_path \<lparr> proot = r, parts = pre @ [x] \<rparr>"
  have kcur: "k \<noteq> cur"
    using Cons.prems(2) [rule_format, of 0] by (simp add: cur_def)
  have rest: "\<forall>i < length xs. k \<noteq> str_path \<lparr> proot = r, parts = (pre @ [x]) @ take (Suc i) xs \<rparr>"
  proof (intro allI impI)
    fix i assume "i < length xs"
    then show "k \<noteq> str_path \<lparr> proot = r, parts = (pre @ [x]) @ take (Suc i) xs \<rparr>"
      using Cons.prems(2) [rule_format, of "Suc i"] by simp
  qed
  show ?case
  proof (cases "fs_get f cur")
    case None
    with Cons.prems(1) have "mkdir_chain (fs_put cur Dir f) whole r (pre @ [x]) xs = Inr f1"
      by (simp add: cur_def [symmetric] Let_def)
    from Cons.IH [OF this rest] kcur show ?thesis by (simp add: map_of_fs_put)
  next
    case (Some n)
    show ?thesis
    proof (cases n)
      case (File b')
      with Some Cons.prems(1) show ?thesis by (simp add: cur_def [symmetric] Let_def)
    next
      case Dir
      with Some Cons.prems(1) have "mkdir_chain f whole r (pre @ [x]) xs = Inr f1"
        by (simp add: cur_def [symmetric] Let_def)
      from Cons.IH [OF this rest] show ?thesis .
    qed
  qed
qed

lemma fresh_path_can_be_opened:
  assumes "\<not> path_exists f (Path s)"
    and "mkdir_parents f (parent (Path s)) = Inr f1"
  shows "\<exists>f2. fs_open_wb f1 (Path s) = Inr f2"
proof -
  define P where "P = Path s"
  define ps where "ps = parts P"
  define r where "r = proot P"
  have P: "P = \<lparr> proot = r, parts = ps \<rparr>" by (simp add: r_def ps_def)
  have none: "fs_get f (str_path P) = None"
    using assms(1) by (simp add: path_exists_def P_def)
  then have notspecial: "str_path P \<noteq> ''.'' \<and> str_path P \<noteq> ''/'' \<and> str_path P \<noteq> ''//''"
    and absent: "map_of f (str_path P) = None"
    by (auto simp: fs_get_def split: if_splits)
  have rcases: "r = [] \<or> r = ''/'' \<or> r = ''//''"
    using proot_Path [of s] by (simp add: r_def P_def)
  have ne: "ps \<noteq> []"
  proof
    assume "ps = []"
    then have "str_path P = ''.'' \<or> str_path P = ''/'' \<or> str_path P = ''//''"
      using rcases by (auto simp: str_path_def ps_def r_def)
    with notspecial show False by simp
  qed
  have par: "parent P = \<lparr> proot = r, parts = butlast ps \<rparr>"
    using ne by (simp add: parent_def ps_def r_def)
  have chain: "mkdir_chain f (str_path (parent P)) r [] (butlast ps) = Inr f1"
    using assms(2) by (simp add: mkdir_parents_def P_def [symmetric] par)
  have differs: "\<forall>i < length (butlast ps).
                   str_path P \<noteq> str_path \<lparr> proot = r, parts = [] @ take (Suc i) (butlast ps) \<rparr>"
  proof (intro allI impI)
    fix i assume i: "i < length (butlast ps)"
    then have lt: "Suc i < length ps" by simp
    have "take (Suc i) (butlast ps) = take (Suc i) ps"
      using i by (simp add: take_butlast)
    then show "str_path P \<noteq> str_path \<lparr> proot = r, parts = [] @ take (Suc i) (butlast ps) \<rparr>"
      using str_path_prefix_neq [of "Suc i" ps r] lt P by simp
  qed
  have still: "map_of f1 (str_path P) = None"
    using mkdir_chain_other [OF chain differs] absent by simp
  have here: "fs_get f1 (str_path P) = None"
    using still notspecial by (simp add: fs_get_def)
  have pdir: "fs_get f1 (str_path (parent P)) = Some Dir"
  proof (cases "butlast ps = []")
    case True
    then have "str_path (parent P) = ''.'' \<or> str_path (parent P) = ''/''
               \<or> str_path (parent P) = ''//''"
      using rcases by (auto simp: par str_path_def)
    then show ?thesis by (auto simp: fs_get_def)
  next
    case False
    from mkdir_chain_last [OF chain False] show ?thesis by (simp add: par)
  qed
  show ?thesis
    using here pdir by (simp add: fs_open_wb_def P_def [symmetric])
qed


text \<open>When both operations return a success result, the content comes back.\<close>

lemma roundtrip_of_successes:
  assumes "fs_get (local_fs w) (str_path (Path src)) = Some (File b)"
    and "upload_file svc faithful_share w src remote_path create_dirs = (d1, w1)"
    and "map_of d1 ''status'' = Some (PStr ''success'')"
    and "download_file svc faithful_share w1 remote_path dst overwrite = (d2, w2)"
    and "map_of d2 ''status'' = Some (PStr ''success'')"
  shows "fs_get (local_fs w2) (str_path (Path dst)) = Some (File b)
         \<and> map_of d1 ''size_bytes'' = Some (PInt (int (length b)))
         \<and> map_of d2 ''size_bytes'' = Some (PInt (int (length b)))"
proof -
  have up: "upload_body svc faithful_share w src remote_path create_dirs = (Inr d1, w1)"
    by (rule upload_success_body [OF assms(2) assms(3)])
  have down: "download_body svc faithful_share w1 remote_path dst overwrite = (Inr d2, w2)"
    by (rule download_success_body [OF assms(4) assms(5)])
  have d1: "d1 = upload_success (Path src) (full_remote_path svc remote_path) (length b)"
    using upload_body_result [OF assms(1) up] by simp
  have stored: "fs_get (remote w1) (str_path (Path (full_remote_path svc remote_path)))
                  = Some (File b)"
    by (rule upload_body_faithful [OF assms(1) up])
  note got = download_body_faithful [OF stored down]
  show ?thesis
    using d1 got by (simp add: upload_success_def download_success_def)
qed

text \<open>
  C3.  On a share that stores what is written to it: when a local regular file with
  content \<open>b\<close> is uploaded with a success result and the same remote path is then
  downloaded to a fresh local path \<open>dst\<close> (one that does not exist, and whose parent
  directories exist or can be created), the download returns a success result, the
  file at \<open>dst\<close> has content \<open>b\<close>, and both results report \<open>length b\<close> as
  \<^verbatim>\<open>size_bytes\<close>.
\<close>

theorem upload_download_roundtrip:
  assumes "fs_get (local_fs w) (str_path (Path src)) = Some (File b)"
    and "upload_file svc faithful_share w src remote_path create_dirs = (d1, w1)"
    and "map_of d1 ''status'' = Some (PStr ''success'')"
    and "\<not> path_exists (local_fs w) (Path dst)"
    and "mkdir_parents (local_fs w) (parent (Path dst)) = Inr f1"
    and "download_file svc faithful_share w1 remote_path dst overwrite = (d2, w2)"
  shows "map_of d2 ''status'' = Some (PStr ''success'')
         \<and> fs_get (local_fs w2) (str_path (Path dst)) = Some (File b)
         \<and> map_of d1 ''size_bytes'' = Some (PInt (int (length b)))
         \<and> map_of d2 ''size_bytes'' = Some (PInt (int (length b)))"
proof -
  have up: "upload_body svc faithful_share w src remote_path create_dirs = (Inr d1, w1)"
    by (rule upload_success_body [OF assms(2) assms(3)])
  have stored: "fs_get (remote w1) (str_path (Path (full_remote_path svc remote_path)))
                  = Some (File b)"
    by (rule upload_body_faithful [OF assms(1) up])
  have loc: "local_fs w1 = local_fs w"
    using upload_file_local [of svc faithful_share w src remote_path create_dirs] assms(2)
    by simp
  have g: "\<not> (path_exists (local_fs w1) (Path dst) \<and> \<not> overwrite)"
    using assms(4) loc by simp
  have mk: "mkdir_parents (local_fs w1) (parent (Path dst)) = Inr f1"
    using assms(5) loc by simp
  obtain f2 where op: "fs_open_wb f1 (Path dst) = Inr f2"
    using fresh_path_can_be_opened [OF assms(4) assms(5)] by blast
  have "fst (download_file svc faithful_share w1 remote_path dst overwrite)
          = download_success (full_remote_path svc remote_path) (Path dst) (length b)"
    by (rule download_file_faithful_ok [OF stored g mk op])
  with assms(6) have st2: "map_of d2 ''status'' = Some (PStr ''success'')"
    by (simp add: download_success_def)
  from roundtrip_of_successes [OF assms(1) assms(2) assms(3) assms(6) st2] st2
  show ?thesis by simp
qed

theorem upload_download_roundtrip_witness:
  "fs_get (local_fs example_world) (str_path (Path ''a.bin'')) = Some (File [1, 2, 3])
   \<and> map_of (fst (upload_file example_service faithful_share example_world
                     ''a.bin'' ''/dir/sub/y.bin'' True)) ''status'' = Some (PStr ''success'')
   \<and> \<not> path_exists (local_fs example_world) (Path ''out/b.bin'')
   \<and> mkdir_parents (local_fs example_world) (parent (Path ''out/b.bin''))
       = Inr [(''a.bin'', File [1, 2, 3]), (''out'', Dir)]
   \<and> map_of (fst (download_file example_service faithful_share
                     (snd (upload_file example_service faithful_share example_world
                             ''a.bin'' ''/dir/sub/y.bin'' True))
                     ''/dir/sub/y.bin'' ''out/b.bin'' False)) ''status''
       = Some (PStr ''success'')
   \<and> fs_get (local_fs (snd (download_file example_service faithful_share
                     (snd (upload_file example_service faithful_share example_world
                             ''a.bin'' ''/dir/sub/y.bin'' True))
                     ''/dir/sub/y.bin'' ''out/b.bin'' False)))
         (str_path (Path ''out/b.bin'')) = Some (File [1, 2, 3])
   \<and> map_of (fst (upload_file example_service faithful_share example_world
                     ''a.bin'' ''/dir/sub/y.bin'' True)) ''size_bytes'' = Some (PInt 3)
   \<and> map_of (fst (download_file example_service faithful_share
                     (snd (upload_file example_service faithful_share example_world
                             ''a.bin'' ''/dir/sub/y.bin'' True))
                     ''/dir/sub/y.bin'' ''out/b.bin'' False)) ''size_bytes'' = Some (PInt 3)"
proof -
  define r1 where "r1 = upload_file example_service faithful_share example_world
                          ''a.bin'' ''/dir/sub/y.bin'' True"
  define r2 where "r2 = download_file example_service faithful_share (snd r1)
                          ''/dir/sub/y.bin'' ''out/b.bin'' False"
  have h1: "fs_get (local_fs example_world) (str_path (Path ''a.bin''))
              = Some (File [1, 2, 3])"
    by code_simp
  have o: "fst (smb_open_wb faithful_share
                 (remote (if True
                          then snd (ensure_remote_dir faithful_share example_world
                                      (str_path (parent (Path (full_remote_path example_service
                                                                 ''/dir/sub/y.bin'')))))
                          else example_world))
                 (full_remote_path example_service ''/dir/sub/y.bin'')) = Inr ()"
    by code_simp
  have up: "fst r1 = upload_success (Path ''a.bin'')
                       (full_remote_path example_service ''/dir/sub/y.bin'')
                       (length [1, 2, 3 :: 8 word])"
    unfolding r1_def by (rule upload_file_faithful_ok [OF h1 o])
  have st1: "map_of (fst r1) ''status'' = Some (PStr ''success'')"
    by (simp add: up upload_success_def)
  have e1: "upload_file example_service faithful_share example_world
              ''a.bin'' ''/dir/sub/y.bin'' True = (fst r1, snd r1)"
    by (simp add: r1_def)
  have fresh: "\<not> path_exists (local_fs example_world) (Path ''out/b.bin'')"
    by code_simp
  have mk: "mkdir_parents (local_fs example_world) (parent (Path ''out/b.bin''))
              = Inr [(''a.bin'', File [1, 2, 3]), (''out'', Dir)]"
    by code_simp
  have e2: "download_file example_service faithful_share (snd r1)
              ''/dir/sub/y.bin'' ''out/b.bin'' False = (fst r2, snd r2)"
    by (simp add: r2_def)
  note rt = upload_download_roundtrip [OF h1 e1 st1 fresh mk e2]
  show ?thesis
    using h1 st1 fresh mk rt unfolding r2_def r1_def by simp
qed

end
